theory Spec2Isabelle
  imports Main "HOL-Library.Multiset"
begin

section \<open>Direct messaging: the data model\<close>

text \<open>
  The development embeds \<^verbatim>\<open>project_manager/messages_api.py\<close>. Identifiers are Python
  integers (\<open>int\<close>). A timestamp is a number of microseconds, the resolution of a Python
  \<^verbatim>\<open>datetime\<close>. Strings are lists of \<open>char\<close>, each read as an ASCII code point: the
  whitespace and case mappings of Python beyond ASCII are outside the model.
\<close>

text \<open>
  Modelled from the spec: the declaration of \<^verbatim>\<open>core.models.User\<close> is not part of the
  sources at hand. The fields below are the ones the messaging code reads.
\<close>

record user =
  user_id :: int
  username :: string
  first_name :: string
  last_name :: string

text \<open>
  Modelled from the spec: the declaration of \<^verbatim>\<open>core.models.Message\<close> is not part of the
  sources at hand. A message has one sender (a foreign key, kept as the sender's id), a set
  of recipients (a many-to-many relation, whose join table holds each pair once), a content,
  a kind tag, a read flag that defaults to false and a creation time. No default ordering of
  the model is assumed.
\<close>

record message =
  msg_id :: int
  sender_id :: int
  recipients :: "int set"
  content :: string
  message_type :: string
  is_read :: bool
  created_at :: int

text \<open>
  The database: the user table, the message table and the next value of the message table's
  auto-increment key. The list \<open>messages\<close> holds the rows in the order in which the
  database engine delivers them to the query at hand; SQL fixes no such order, so no
  relation between the position of a row and its identifier is built in. The engine is free
  to deliver the rows in another order to another query: a statement that compares two
  queries takes two stores that hold the same rows, one for each query.
\<close>

record store =
  users :: "user list"
  messages :: "message list"
  next_id :: int

text \<open>
  The error answers of the views. The catch-all handler of the send view, which turns any
  other exception (a body that is not JSON, a failing database) into a status 500, has no
  constructor: the typed model has no such exception.
\<close>

datatype error =
  Validation string   \<comment> \<open>status 400\<close>
| NotFound string     \<comment> \<open>status 404\<close>

subsection \<open>Strings\<close>

definition is_space :: "char \<Rightarrow> bool" where
  "is_space c \<longleftrightarrow> (let n = (of_char c :: nat) in (9 \<le> n \<and> n \<le> 13) \<or> (28 \<le> n \<and> n \<le> 32))"

definition strip :: "string \<Rightarrow> string" where
  "strip s = rev (dropWhile is_space (rev (dropWhile is_space s)))"

definition upper_char :: "char \<Rightarrow> char" where
  "upper_char c =
     (case map_of (zip ''abcdefghijklmnopqrstuvwxyz'' ''ABCDEFGHIJKLMNOPQRSTUVWXYZ'') c of
        Some d \<Rightarrow> d
      | None \<Rightarrow> c)"

definition upper :: "string \<Rightarrow> string" where
  "upper s = map upper_char s"

fun digits :: "nat \<Rightarrow> string" where
  "digits n =
     (if n < 10 then [''0123456789'' ! n]
      else digits (n div 10) @ [''0123456789'' ! (n mod 10)])"

declare digits.simps [simp del]

definition str_int :: "int \<Rightarrow> string" where
  "str_int i = (if i < 0 then CHR ''-'' # digits (nat (- i)) else digits (nat i))"

subsection \<open>The broker\<close>

text \<open>
  The fan-out payload of \<^verbatim>\<open>publish_message\<close>. The timestamp is the creation time itself;
  its ISO rendering is not modelled.
\<close>

record payload =
  p_type :: string
  p_message_id :: int
  p_sender_id :: int
  p_sender_name :: string
  p_recipient_id :: int
  p_content :: string
  p_timestamp :: int
  p_avatar_color :: string
  p_initials :: string

text \<open>
  The module-level Redis handle. \<open>redis_available\<close> is the flag set once at import time
  (false when connecting or the ping raised). The two client operations answer \<open>Inl ()\<close>
  when the call raises an exception.
\<close>

record redis_env =
  redis_available :: bool
  client_exists :: "string \<Rightarrow> unit + bool"
  client_publish :: "string \<Rightarrow> payload \<Rightarrow> unit + nat"

definition redis_exists :: "redis_env \<Rightarrow> string \<Rightarrow> bool" where
  "redis_exists r key =
     (if \<not> redis_available r then False
      else (case client_exists r key of Inl _ \<Rightarrow> False | Inr b \<Rightarrow> b))"

text \<open>
  \<^verbatim>\<open>redis_publish\<close> returns nothing. Its effect on the outside world is the list of
  publications the broker accepted: none when the broker is unavailable or the call raised.
\<close>

definition redis_publish :: "redis_env \<Rightarrow> string \<Rightarrow> payload \<Rightarrow> (string \<times> payload) list" where
  "redis_publish r channel p =
     (if \<not> redis_available r then []
      else (case client_publish r channel p of Inl _ \<Rightarrow> [] | Inr _ \<Rightarrow> [(channel, p)]))"

subsection \<open>Utilities\<close>

definition colors :: "string list" where
  "colors = [''dark-teal'', ''dark-cyan'', ''golden-orange'',
             ''rusty-spice'', ''oxidized-iron'', ''brown-red'']"

definition get_user_color :: "int \<Rightarrow> string" where
  "get_user_color uid = ''bg-'' @ colors ! nat (uid mod int (length colors))"

text \<open>Django's \<^verbatim>\<open>get_full_name\<close>: first and last name joined by a space, stripped.\<close>

definition get_full_name :: "user \<Rightarrow> string" where
  "get_full_name u = strip (first_name u @ '' '' @ last_name u)"

text \<open>
  The initials expression, written out four times in the source (message view, other-user
  summary, start of a conversation, fan-out payload), always on one user object.
\<close>

definition initials :: "user \<Rightarrow> string" where
  "initials u =
     (if first_name u \<noteq> [] \<and> last_name u \<noteq> []
      then upper (take 1 (first_name u) @ take 1 (last_name u))
      else upper (take 2 (username u)))"

subsection \<open>Queries\<close>

text \<open>\<^verbatim>\<open>User.objects.get(id=...)\<close>; \<open>None\<close> stands for \<^verbatim>\<open>User.DoesNotExist\<close>.\<close>

definition get_user :: "store \<Rightarrow> int \<Rightarrow> user option" where
  "get_user s uid = find (\<lambda>u. user_id u = uid) (users s)"

text \<open>
  The filter of the conversation query. The join with the recipients table yields a message
  once for each recipient row that satisfies the condition, and a message has at most one
  such row, so the query is a filter on the message rows.
\<close>

definition conv_filter :: "int \<Rightarrow> int \<Rightarrow> message \<Rightarrow> bool" where
  "conv_filter cur other m \<longleftrightarrow>
     (sender_id m = cur \<and> other \<in> recipients m \<and> message_type m = ''direct'') \<or>
     (sender_id m = other \<and> cur \<in> recipients m \<and> message_type m = ''direct'')"

text \<open>
  \<^verbatim>\<open>order_by("created_at")\<close>: the rows sorted on the creation time alone. Rows with equal
  creation times stay in the order in which the engine delivered them.
\<close>

definition order_by_created_at :: "message list \<Rightarrow> message list" where
  "order_by_created_at ms = sort_key created_at ms"

definition conversation_qs :: "store \<Rightarrow> int \<Rightarrow> int \<Rightarrow> message list" where
  "conversation_qs s cur other =
     order_by_created_at (filter (conv_filter cur other) (messages s))"

text \<open>\<^verbatim>\<open>.first()\<close> on a query without ordering: the row with the least primary key.\<close>

fun first_by_pk :: "message list \<Rightarrow> message option" where
  "first_by_pk [] = None"
| "first_by_pk (m # ms) =
     (case first_by_pk ms of
        None \<Rightarrow> Some m
      | Some m' \<Rightarrow> if msg_id m \<le> msg_id m' then Some m else Some m')"

definition dedup_filter :: "int \<Rightarrow> string \<Rightarrow> int \<Rightarrow> message \<Rightarrow> bool" where
  "dedup_filter sender c cutoff m \<longleftrightarrow>
     sender_id m = sender \<and> content m = c \<and> message_type m = ''direct'' \<and> cutoff \<le> created_at m"

definition unread_filter :: "int \<Rightarrow> message \<Rightarrow> bool" where
  "unread_filter viewer m \<longleftrightarrow>
     viewer \<in> recipients m \<and> \<not> is_read m \<and> message_type m = ''direct''"

definition mark_filter :: "int \<Rightarrow> int \<Rightarrow> message \<Rightarrow> bool" where
  "mark_filter uid viewer m \<longleftrightarrow>
     sender_id m = uid \<and> viewer \<in> recipients m \<and> \<not> is_read m \<and> message_type m = ''direct''"

subsection \<open>Writes\<close>

text \<open>\<^verbatim>\<open>msg.save(update_fields=["is_read"])\<close> after \<^verbatim>\<open>msg.is_read = True\<close>.\<close>

definition save_is_read :: "store \<Rightarrow> int \<Rightarrow> store" where
  "save_is_read s mid =
     s\<lparr>messages := map (\<lambda>m. if msg_id m = mid then m\<lparr>is_read := True\<rparr> else m) (messages s)\<rparr>"

text \<open>\<^verbatim>\<open>message.recipients.add(recipient)\<close>.\<close>

definition recipients_add :: "store \<Rightarrow> int \<Rightarrow> int \<Rightarrow> store" where
  "recipients_add s mid uid =
     s\<lparr>messages := map (\<lambda>m. if msg_id m = mid then m\<lparr>recipients := insert uid (recipients m)\<rparr> else m)
                      (messages s)\<rparr>"

text \<open>\<^verbatim>\<open>Message.objects.create(...)\<close>: a fresh row with the next key, unread, no recipient.\<close>

definition create_message :: "store \<Rightarrow> int \<Rightarrow> string \<Rightarrow> string \<Rightarrow> int \<Rightarrow> store \<times> message" where
  "create_message s sender c kind t =
     (let m = \<lparr>msg_id = next_id s, sender_id = sender, recipients = {}, content = c,
               message_type = kind, is_read = False, created_at = t\<rparr>
      in (s\<lparr>messages := messages s @ [m], next_id := next_id s + 1\<rparr>, m))"

section \<open>The API\<close>

subsection \<open>Fan-out\<close>

definition publish_message ::
  "redis_env \<Rightarrow> message \<Rightarrow> user \<Rightarrow> user \<Rightarrow> (string \<times> payload) list" where
  "publish_message r msg sender recipient =
     (let p = \<lparr>p_type = ''direct_message'',
               p_message_id = msg_id msg,
               p_sender_id = user_id sender,
               p_sender_name = get_full_name sender,
               p_recipient_id = user_id recipient,
               p_content = content msg,
               p_timestamp = created_at msg,
               p_avatar_color = get_user_color (user_id sender),
               p_initials = initials sender\<rparr>
      in redis_publish r (''user_'' @ str_int (user_id recipient)) p @
         redis_publish r (''user_'' @ str_int (user_id sender)) p)"

subsection \<open>Reading a conversation\<close>

text \<open>
  One entry of \<^verbatim>\<open>messages_data\<close>. The \<^verbatim>\<open>date\<close> field, a rendering of the creation time, is
  left out.
\<close>

record message_view =
  mv_id :: int
  mv_content :: string
  mv_sender_id :: int
  mv_sender_name :: string
  mv_initials :: string
  mv_avatar_color :: string
  mv_timestamp :: int
  mv_is_sent :: bool
  mv_is_read :: bool

text \<open>
  The \<^verbatim>\<open>other_user\<close> entry. The job position and the department come from the employee
  profile, a table that the messaging logic does not otherwise touch; they are left out.
\<close>

record user_summary =
  us_id :: int
  us_name :: string
  us_initials :: string
  us_avatar_color :: string
  us_is_online :: bool

record conversation =
  messages_data :: "message_view list"
  other_user :: user_summary

definition message_entry :: "message \<Rightarrow> user \<Rightarrow> bool \<Rightarrow> message_view" where
  "message_entry msg sender is_sent =
     \<lparr>mv_id = msg_id msg,
      mv_content = content msg,
      mv_sender_id = user_id sender,
      mv_sender_name = get_full_name sender,
      mv_initials = initials sender,
      mv_avatar_color = get_user_color (user_id sender),
      mv_timestamp = created_at msg,
      mv_is_sent = is_sent,
      mv_is_read = is_read msg\<rparr>"

text \<open>
  The loop over the query result, which was fetched before the loop starts. A message that
  the viewer did not send and that is unread is saved as read. Reading \<^verbatim>\<open>msg.sender\<close>
  fetches the sender's row; were it missing, the exception raised is a
  \<^verbatim>\<open>User.DoesNotExist\<close>, which the handler of the view turns into the 404 answer, the
  rows saved so far staying saved.
\<close>

fun conv_loop ::
  "store \<Rightarrow> int \<Rightarrow> message list \<Rightarrow> message_view list \<Rightarrow> store \<times> (error + message_view list)" where
  "conv_loop s cur [] acc = (s, Inr acc)"
| "conv_loop s cur (msg # rest) acc =
     (let is_sent = (sender_id msg = cur);
          flip = (\<not> is_sent \<and> \<not> is_read msg);
          msg' = (if flip then msg\<lparr>is_read := True\<rparr> else msg);
          s' = (if flip then save_is_read s (msg_id msg) else s)
      in case get_user s' (sender_id msg') of
           None \<Rightarrow> (s', Inl (NotFound ''User not found''))
         | Some sender \<Rightarrow> conv_loop s' cur rest (acc @ [message_entry msg' sender is_sent]))"

definition get_conversation_messages ::
  "redis_env \<Rightarrow> store \<Rightarrow> user \<Rightarrow> int \<Rightarrow> store \<times> (error + conversation)" where
  "get_conversation_messages r s request_user uid =
     (case get_user s uid of
        None \<Rightarrow> (s, Inl (NotFound ''User not found''))
      | Some other \<Rightarrow>
          (let current_user = request_user;
               msgs = conversation_qs s (user_id current_user) (user_id other)
           in case conv_loop s (user_id current_user) msgs [] of
                (s', Inl e) \<Rightarrow> (s', Inl e)
              | (s', Inr data) \<Rightarrow>
                  (s', Inr \<lparr>messages_data = data,
                            other_user =
                              \<lparr>us_id = user_id other,
                               us_name = get_full_name other,
                               us_initials = initials other,
                               us_avatar_color = get_user_color (user_id other),
                               us_is_online = redis_exists r (''user_online_'' @ str_int (user_id other))\<rparr>\<rparr>)))"

subsection \<open>Sending\<close>

text \<open>
  The decoded request body. \<open>None\<close> as recipient is a key that is absent or null. Bodies
  that do not decode to an object with an integer recipient and a string content are
  outside this type.
\<close>

record send_body =
  body_recipient_id :: "int option"
  body_content :: string

record sent =
  message_id :: int
  timestamp :: int

definition dedup_window :: int where
  "dedup_window = 5 * 1000000"

text \<open>
  The clock is read twice: \<open>now\<close> for the cutoff, \<open>now'\<close> for the creation time of a new
  row. The result is the new store, the publications the broker accepted and the answer.
\<close>

definition send_message_api ::
  "redis_env \<Rightarrow> store \<Rightarrow> user \<Rightarrow> send_body \<Rightarrow> int \<Rightarrow> int
     \<Rightarrow> store \<times> (string \<times> payload) list \<times> (error + sent)" where
  "send_message_api r s request_user data now now' =
     (let recipient_id = body_recipient_id data;
          c = strip (body_content data)
      in if (recipient_id = None \<or> recipient_id = Some 0) \<or> c = []
         then (s, [], Inl (Validation ''Missing fields''))
         else case get_user s (the recipient_id) of
           None \<Rightarrow> (s, [], Inl (NotFound ''Recipient not found''))
         | Some recipient \<Rightarrow>
             (let cutoff = now - dedup_window;
                  existing = first_by_pk (filter (dedup_filter (user_id request_user) c cutoff) (messages s))
              in case existing of
                   Some msg \<Rightarrow>
                     (let s' = (if user_id recipient \<in> recipients msg then s
                                else recipients_add s (msg_id msg) (user_id recipient))
                      in (s', publish_message r msg request_user recipient,
                          Inr \<lparr>message_id = msg_id msg, timestamp = created_at msg\<rparr>))
                 | None \<Rightarrow>
                     (let (s1, msg) = create_message s (user_id request_user) c ''direct'' now';
                          s' = recipients_add s1 (msg_id msg) (user_id recipient)
                      in (s', publish_message r msg request_user recipient,
                          Inr \<lparr>message_id = msg_id msg, timestamp = created_at msg\<rparr>))))"

subsection \<open>Read state\<close>

text \<open>The bulk update; the answer is always the success object.\<close>

definition mark_as_read_api :: "store \<Rightarrow> user \<Rightarrow> int \<Rightarrow> store \<times> (error + unit)" where
  "mark_as_read_api s request_user uid =
     (s\<lparr>messages := map (\<lambda>m. if mark_filter uid (user_id request_user) m
                               then m\<lparr>is_read := True\<rparr> else m) (messages s)\<rparr>,
      Inr ())"

definition unread_qs :: "store \<Rightarrow> int \<Rightarrow> message list" where
  "unread_qs s viewer = filter (unread_filter viewer) (messages s)"

definition get_unread_count_api :: "store \<Rightarrow> user \<Rightarrow> error + nat" where
  "get_unread_count_api s request_user = Inr (length (unread_qs s (user_id request_user)))"

subsection \<open>Starting a conversation\<close>

text \<open>The job position, read from the employee profile, is left out of the answer.\<close>

record conversation_start =
  cs_user_id :: int
  cs_name :: string
  cs_initials :: string
  cs_avatar_color :: string
  cs_is_online :: bool
  cs_has_existing_conversation :: bool

definition start_conversation_api ::
  "redis_env \<Rightarrow> store \<Rightarrow> user \<Rightarrow> int option \<Rightarrow> error + conversation_start" where
  "start_conversation_api r s request_user recipient_id =
     (case (case recipient_id of None \<Rightarrow> None | Some i \<Rightarrow> get_user s i) of
        None \<Rightarrow> Inl (NotFound ''User not found'')
      | Some recipient \<Rightarrow>
          Inr \<lparr>cs_user_id = user_id recipient,
               cs_name = get_full_name recipient,
               cs_initials = initials recipient,
               cs_avatar_color = get_user_color (user_id recipient),
               cs_is_online = redis_exists r (''user_online_'' @ str_int (user_id recipient)),
               cs_has_existing_conversation =
                 list_ex (conv_filter (user_id request_user) (user_id recipient)) (messages s)\<rparr>)"

section \<open>Store invariants\<close>

text \<open>
  What the database guarantees by its constraints: primary keys are unique and below the
  auto-increment counter, and the sender of a message is a row of the user table.
\<close>

definition wf_store :: "store \<Rightarrow> bool" where
  "wf_store s \<longleftrightarrow>
     distinct (map msg_id (messages s)) \<and>
     list_all (\<lambda>m. msg_id m < next_id s) (messages s) \<and>
     list_all (\<lambda>m. get_user s (sender_id m) \<noteq> None) (messages s)"

section \<open>Notions used in the statements\<close>

text \<open>The identifiers of the rows that the loop of the conversation view saves as read.\<close>

definition flip_ids :: "int \<Rightarrow> message list \<Rightarrow> int set" where
  "flip_ids cur msgs = msg_id ` {m \<in> set msgs. sender_id m \<noteq> cur \<and> \<not> is_read m}"

definition set_read :: "int set \<Rightarrow> store \<Rightarrow> store" where
  "set_read ids s =
     s\<lparr>messages := map (\<lambda>m. if msg_id m \<in> ids then m\<lparr>is_read := True\<rparr> else m) (messages s)\<rparr>"

text \<open>The entry that the loop produces for one row of the query result.\<close>

definition entry_for :: "store \<Rightarrow> int \<Rightarrow> message \<Rightarrow> message_view" where
  "entry_for s cur m =
     message_entry (if sender_id m \<noteq> cur \<and> \<not> is_read m then m\<lparr>is_read := True\<rparr> else m)
       (the (get_user s (sender_id m))) (sender_id m = cur)"


text \<open>
  One database as two queries see it: the same users, the same counter and the same rows,
  delivered in possibly different orders.
\<close>

definition same_rows :: "store \<Rightarrow> store \<Rightarrow> bool" where
  "same_rows s s' \<longleftrightarrow>
     users s' = users s \<and> next_id s' = next_id s \<and> mset (messages s') = mset (messages s)"

section \<open>Example data\<close>

definition ana :: user where
  "ana = \<lparr>user_id = 1, username = ''alee'', first_name = ''Ana'', last_name = ''Lee''\<rparr>"

definition jdoe :: user where
  "jdoe = \<lparr>user_id = 2, username = ''jdoe'', first_name = [], last_name = []\<rparr>"

definition no_redis :: redis_env where
  "no_redis = \<lparr>redis_available = False,
                client_exists = (\<lambda>_. Inl ()),
                client_publish = (\<lambda>_ _. Inl ())\<rparr>"

definition hi_message :: message where
  "hi_message = \<lparr>msg_id = 1, sender_id = 1, recipients = {2}, content = ''hi'',
                  message_type = ''direct'', is_read = False, created_at = 0\<rparr>"

definition empty_store :: store where
  "empty_store = \<lparr>users = [ana, jdoe], messages = [], next_id = 1\<rparr>"

definition hi_store :: store where
  "hi_store = \<lparr>users = [ana, jdoe], messages = [hi_message], next_id = 2\<rparr>"


definition self_store :: store where
  "self_store =
     \<lparr>users = [ana, jdoe],
      messages =
        [\<lparr>msg_id = 1, sender_id = 2, recipients = {2}, content = ''note'',
          message_type = ''direct'', is_read = False, created_at = 0\<rparr>],
      next_id = 2\<rparr>"

text \<open>A short exchange: a message from the first user and the answer of the second.\<close>

definition chat_store :: store where
  "chat_store =
     \<lparr>users = [ana, jdoe],
      messages =
        [hi_message,
         \<lparr>msg_id = 2, sender_id = 2, recipients = {1}, content = ''hello'',
          message_type = ''direct'', is_read = False, created_at = 7000000\<rparr>],
      next_id = 3\<rparr>"

text \<open>A request body that sends the text of the first example to the second user.\<close>

definition hi_body :: send_body where
  "hi_body = \<lparr>body_recipient_id = Some 2, body_content = '' hi ''\<rparr>"

text \<open>A broker that was reached at start-up and whose every call raises, and one that works.\<close>

definition raising_redis :: redis_env where
  "raising_redis = \<lparr>redis_available = True,
                     client_exists = (\<lambda>_. Inl ()),
                     client_publish = (\<lambda>_ _. Inl ())\<rparr>"

definition working_redis :: redis_env where
  "working_redis = \<lparr>redis_available = True,
                     client_exists = (\<lambda>_. Inr True),
                     client_publish = (\<lambda>_ _. Inr 1)\<rparr>"

text \<open>
  An exchange in which a message of each direction carries the same creation time, as one
  query receives the rows and as another query receives them; and the short exchange with
  its rows delivered in the opposite order.
\<close>

definition cross_rows :: "message list" where
  "cross_rows =
     [\<lparr>msg_id = 1, sender_id = 1, recipients = {2}, content = ''one'',
       message_type = ''direct'', is_read = True, created_at = 0\<rparr>,
      \<lparr>msg_id = 2, sender_id = 1, recipients = {2}, content = ''two'',
       message_type = ''direct'', is_read = True, created_at = 10\<rparr>,
      \<lparr>msg_id = 3, sender_id = 2, recipients = {1}, content = ''three'',
       message_type = ''direct'', is_read = True, created_at = 10\<rparr>,
      \<lparr>msg_id = 4, sender_id = 1, recipients = {2}, content = ''four'',
       message_type = ''direct'', is_read = True, created_at = 20\<rparr>]"

definition cross_store :: store where
  "cross_store = \<lparr>users = [ana, jdoe], messages = cross_rows, next_id = 5\<rparr>"

definition cross_store_swapped :: store where
  "cross_store_swapped =
     \<lparr>users = [ana, jdoe],
      messages = [cross_rows ! 0, cross_rows ! 2, cross_rows ! 1, cross_rows ! 3],
      next_id = 5\<rparr>"

definition chat_store_swapped :: store where
  "chat_store_swapped = chat_store\<lparr>messages := rev (messages chat_store)\<rparr>"

section \<open>Basic facts\<close>

lemma get_user_id: "get_user s uid = Some u \<Longrightarrow> user_id u = uid"
  by (auto simp: get_user_def find_Some_iff)

lemma get_user_save_is_read [simp]: "get_user (save_is_read s mid) = get_user s"
  by (rule ext) (simp add: get_user_def save_is_read_def)

lemma set_read_empty [simp]: "set_read {} s = s"
  by (simp add: set_read_def)

lemma save_is_read_set_read: "set_read F (save_is_read s mid) = set_read (insert mid F) s"
  by (auto simp: set_read_def save_is_read_def)

lemma flip_ids_Nil [simp]: "flip_ids cur [] = {}"
  by (simp add: flip_ids_def)

lemma flip_ids_Cons: "flip_ids cur (m # ms) =
   (if sender_id m \<noteq> cur \<and> \<not> is_read m then insert (msg_id m) (flip_ids cur ms) else flip_ids cur ms)"
  by (auto simp: flip_ids_def)

lemma conv_loop_ok:
  "list_all (\<lambda>m. get_user s (sender_id m) \<noteq> None) msgs \<Longrightarrow>
   conv_loop s cur msgs acc = (set_read (flip_ids cur msgs) s, Inr (acc @ map (entry_for s cur) msgs))"
proof (induction msgs arbitrary: s acc)
  case Nil
  then show ?case by simp
next
  case (Cons m ms)
  from Cons.prems obtain u where u: "get_user s (sender_id m) = Some u"
    by auto
  from Cons.prems have rest: "list_all (\<lambda>x. get_user s (sender_id x) \<noteq> None) ms"
    by simp
  show ?case
  proof (cases "sender_id m \<noteq> cur \<and> \<not> is_read m")
    case True
    have "list_all (\<lambda>x. get_user (save_is_read s (msg_id m)) (sender_id x) \<noteq> None) ms"
      using rest by simp
    from Cons.IH [OF this] True u show ?thesis
      by (simp add: Let_def save_is_read_set_read flip_ids_Cons entry_for_def)
  next
    case False
    from Cons.IH [OF rest] False u show ?thesis
      by (auto simp add: Let_def flip_ids_Cons entry_for_def)
  qed
qed


lemma conv_loop_Inr_senders:
  "conv_loop s cur msgs acc = (s', Inr data) \<Longrightarrow>
   list_all (\<lambda>m. get_user s (sender_id m) \<noteq> None) msgs"
proof (induction msgs arbitrary: s acc)
  case Nil
  then show ?case by simp
next
  case (Cons m ms)
  show ?case
  proof (cases "get_user s (sender_id m)")
    case None
    with Cons.prems show ?thesis by (auto simp: Let_def split: if_splits)
  next
    case (Some u)
    define s1 where "s1 = (if sender_id m \<noteq> cur \<and> \<not> is_read m then save_is_read s (msg_id m) else s)"
    have g: "get_user s1 = get_user s" by (simp add: s1_def)
    from Cons.prems Some obtain acc1 where c: "conv_loop s1 cur ms acc1 = (s', Inr data)"
      by (auto simp: Let_def s1_def split: if_splits)
    from Cons.IH [OF c] g Some show ?thesis by simp
  qed
qed

section \<open>Read state\<close>

text \<open>
  Claim C6. Marking as read twice in a row, by the same viewer for the same sender, gives
  the same store and the same answer as marking once.
\<close>

theorem mark_read_idempotent:
  "mark_as_read_api (fst (mark_as_read_api s b a)) b a = mark_as_read_api s b a"
  by (simp add: mark_as_read_api_def mark_filter_def comp_def)

text \<open>
  Claim C10. Marking as read answers with success for every viewer and every user id,
  whether or not the id is that of a user; when no unread direct message from that sender
  to the viewer is stored, the store stays as it was.
\<close>

theorem mark_read_always_succeeds:
  "snd (mark_as_read_api s v uid) = Inr () \<and>
   (\<not> list_ex (mark_filter uid (user_id v)) (messages s) \<longrightarrow> fst (mark_as_read_api s v uid) = s)"
  by (simp add: mark_as_read_api_def list_ex_iff map_idI)

theorem mark_read_always_succeeds_witness:
  "get_user hi_store 99 = None \<and>
   \<not> list_ex (mark_filter 99 (user_id jdoe)) (messages hi_store) \<and>
   mark_as_read_api hi_store jdoe 99 = (hi_store, Inr ())"
  using mark_read_always_succeeds [of hi_store jdoe 99]
  by (simp add: hi_store_def hi_message_def jdoe_def ana_def mark_filter_def get_user_def prod_eq_iff)

section \<open>The conversation view\<close>

lemma conversation_result:
  assumes "get_conversation_messages r s v uid = (s', Inr c)"
  shows "\<exists>other. get_user s uid = Some other \<and>
          list_all (\<lambda>m. get_user s (sender_id m) \<noteq> None) (conversation_qs s (user_id v) uid) \<and>
          s' = set_read (flip_ids (user_id v) (conversation_qs s (user_id v) uid)) s \<and>
          messages_data c = map (entry_for s (user_id v)) (conversation_qs s (user_id v) uid) \<and>
          us_initials (other_user c) = initials other \<and>
          us_is_online (other_user c) = redis_exists r (''user_online_'' @ str_int uid)"
proof (cases "get_user s uid")
  case None
  with assms show ?thesis by (simp add: get_conversation_messages_def)
next
  case (Some other)
  then have oid: "user_id other = uid" by (rule get_user_id)
  let ?qs = "conversation_qs s (user_id v) uid"
  obtain s1 res where l: "conv_loop s (user_id v) ?qs [] = (s1, res)"
    by (cases "conv_loop s (user_id v) ?qs []")
  with assms Some oid obtain data where res: "res = Inr data" and s1: "s1 = s'"
    by (cases res) (auto simp: get_conversation_messages_def Let_def)
  from l res s1 have l': "conv_loop s (user_id v) ?qs [] = (s', Inr data)" by simp
  then have snd: "list_all (\<lambda>m. get_user s (sender_id m) \<noteq> None) ?qs"
    by (rule conv_loop_Inr_senders)
  from conv_loop_ok [OF snd, of "user_id v" "[]"] l'
  have "s' = set_read (flip_ids (user_id v) ?qs) s" and "data = map (entry_for s (user_id v)) ?qs"
    by simp_all
  with assms Some oid l' snd show ?thesis
    by (auto simp: get_conversation_messages_def Let_def)
qed

lemma conversation_succeeds:
  assumes "get_user s uid = Some other"
    and "list_all (\<lambda>m. get_user s (sender_id m) \<noteq> None) (messages s)"
  shows "\<exists>c. get_conversation_messages r s v uid =
           (set_read (flip_ids (user_id v) (conversation_qs s (user_id v) uid)) s, Inr c)"
proof -
  have oid: "user_id other = uid" using assms(1) by (rule get_user_id)
  have "list_all (\<lambda>m. get_user s (sender_id m) \<noteq> None) (conversation_qs s (user_id v) uid)"
    using assms(2) by (simp add: conversation_qs_def order_by_created_at_def list_all_iff)
  from conv_loop_ok [OF this, of "user_id v" "[]"] assms(1) oid show ?thesis
    by (simp add: get_conversation_messages_def Let_def)
qed

lemma conv_filter_commute: "conv_filter a b = conv_filter b a"
  by (rule ext) (auto simp: conv_filter_def)

lemma set_conversation_qs: "set (conversation_qs s a b) = {m \<in> set (messages s). conv_filter a b m}"
  by (simp add: conversation_qs_def order_by_created_at_def)

lemma mv_id_entry_for [simp]: "mv_id (entry_for s cur m) = msg_id m"
  by (simp add: entry_for_def message_entry_def)

lemma mv_timestamp_entry_for [simp]: "mv_timestamp (entry_for s cur m) = created_at m"
  by (simp add: entry_for_def message_entry_def)

lemma mv_content_entry_for [simp]: "mv_content (entry_for s cur m) = content m"
  by (simp add: entry_for_def message_entry_def)

lemma conv_filter_pair:
  "conv_filter a b m \<longleftrightarrow>
   message_type m = ''direct'' \<and> (\<exists>rc \<in> recipients m. {sender_id m, rc} = {a, b})"
  by (auto simp: conv_filter_def doubleton_eq_iff)

lemma wf_hi_store: "wf_store hi_store"
  by (simp add: wf_store_def hi_store_def hi_message_def get_user_def ana_def jdoe_def)

lemma wf_chat_store: "wf_store chat_store"
  by (simp add: wf_store_def chat_store_def hi_message_def get_user_def ana_def jdoe_def)

lemma same_rows_get_user: "same_rows s s' \<Longrightarrow> get_user s' = get_user s"
  by (rule ext) (simp add: same_rows_def get_user_def)

lemma same_rows_set: "same_rows s s' \<Longrightarrow> set (messages s') = set (messages s)"
  by (auto simp: same_rows_def dest: mset_eq_setD)

lemma same_rows_conversation:
  assumes "same_rows s s'"
  shows "mset (conversation_qs s' b a) = mset (conversation_qs s a b)"
proof -
  from assms have "mset (messages s') = mset (messages s)" by (simp add: same_rows_def)
  then have "mset (filter (conv_filter a b) (messages s')) = mset (filter (conv_filter a b) (messages s))"
    by simp
  then show ?thesis
    by (simp add: conversation_qs_def order_by_created_at_def conv_filter_commute [of b a])
qed

lemma sorted_conversation_qs: "sorted (map created_at (conversation_qs s a b))"
  by (simp add: conversation_qs_def order_by_created_at_def)

lemma same_rows_times:
  assumes "same_rows s s'"
  shows "map created_at (conversation_qs s' b a) = map created_at (conversation_qs s a b)"
proof -
  let ?x = "map created_at (conversation_qs s a b)"
  let ?y = "map created_at (conversation_qs s' b a)"
  from same_rows_conversation [OF assms, of b a] have m: "mset ?y = mset ?x" by simp
  from properties_for_sort [OF m sorted_conversation_qs] have "sort ?x = ?y" .
  moreover from properties_for_sort [OF refl sorted_conversation_qs] have "sort ?x = ?x" .
  ultimately show ?thesis by simp
qed

lemma same_rows_untied:
  assumes "same_rows s s'" and "distinct (map created_at (conversation_qs s a b))"
  shows "conversation_qs s' b a = conversation_qs s a b"
proof -
  let ?x = "conversation_qs s a b"
  let ?y = "conversation_qs s' b a"
  from same_rows_conversation [OF assms(1), of b a] have "set ?y = set ?x"
    by (rule mset_eq_setD)
  moreover from assms(2) have "inj_on created_at (set ?x)" by (simp add: distinct_map)
  ultimately have "inj_on created_at (set ?y \<union> set ?x)" by simp
  with same_rows_times [OF assms(1), of b a] show ?thesis
    by (simp add: inj_on_map_eq_map)
qed

text \<open>
  Claim C3, as amended. Two existing users \<open>a\<close> and \<open>b\<close>, a store that satisfies the
  constraints of the database, and the same rows as a second query receives them. The
  conversation of \<open>a\<close> with \<open>b\<close> and the conversation of \<open>b\<close> with \<open>a\<close> both succeed and list
  the same messages, namely the direct messages whose sender and one of whose recipients
  form the pair \<open>{a, b}\<close>; both lists ascend in creation time and show the same sequence of
  creation times. When no two listed messages share a creation time, identifiers and
  contents agree position by position. Nothing is stated on the relative order of messages
  that share a creation time.
\<close>

theorem conversation_symmetric:
  assumes "get_user s (user_id a) \<noteq> None" and "get_user s (user_id b) \<noteq> None"
    and "wf_store s" and "same_rows s s'"
  shows "\<exists>s1 c1 s2 c2.
     get_conversation_messages r s a (user_id b) = (s1, Inr c1) \<and>
     get_conversation_messages r s' b (user_id a) = (s2, Inr c2) \<and>
     mset (map mv_id (messages_data c1)) = mset (map mv_id (messages_data c2)) \<and>
     set (map mv_id (messages_data c1)) =
       msg_id ` {m \<in> set (messages s). message_type m = ''direct'' \<and>
                  (\<exists>rc \<in> recipients m. {sender_id m, rc} = {user_id a, user_id b})} \<and>
     sorted (map mv_timestamp (messages_data c1)) \<and>
     sorted (map mv_timestamp (messages_data c2)) \<and>
     map mv_timestamp (messages_data c1) = map mv_timestamp (messages_data c2) \<and>
     (distinct (map mv_timestamp (messages_data c1)) \<longrightarrow>
        map mv_id (messages_data c1) = map mv_id (messages_data c2) \<and>
        map mv_content (messages_data c1) = map mv_content (messages_data c2))"
proof -
  let ?x = "conversation_qs s (user_id a) (user_id b)"
  let ?y = "conversation_qs s' (user_id b) (user_id a)"
  from assms(3) have fk: "list_all (\<lambda>m. get_user s (sender_id m) \<noteq> None) (messages s)"
    by (simp add: wf_store_def)
  then have fk': "list_all (\<lambda>m. get_user s' (sender_id m) \<noteq> None) (messages s')"
    by (simp add: list_all_iff same_rows_get_user [OF assms(4)] same_rows_set [OF assms(4)])
  from assms(2) obtain ub where ub: "get_user s (user_id b) = Some ub" by auto
  from assms(1) obtain ua where ua: "get_user s' (user_id a) = Some ua"
    by (auto simp: same_rows_get_user [OF assms(4)])
  from conversation_succeeds [OF ub fk, of r a] obtain c1 s1
    where r1: "get_conversation_messages r s a (user_id b) = (s1, Inr c1)" by blast
  from conversation_succeeds [OF ua fk', of r b] obtain c2 s2
    where r2: "get_conversation_messages r s' b (user_id a) = (s2, Inr c2)" by blast
  from conversation_result [OF r1]
  have d1: "messages_data c1 = map (entry_for s (user_id a)) ?x" by blast
  from conversation_result [OF r2]
  have d2: "messages_data c2 = map (entry_for s' (user_id b)) ?y" by blast
  have ids1: "map mv_id (messages_data c1) = map msg_id ?x"
    and ids2: "map mv_id (messages_data c2) = map msg_id ?y"
    and ts1: "map mv_timestamp (messages_data c1) = map created_at ?x"
    and ts2: "map mv_timestamp (messages_data c2) = map created_at ?y"
    and cs1: "map mv_content (messages_data c1) = map content ?x"
    and cs2: "map mv_content (messages_data c2) = map content ?y"
    by (simp_all add: d1 d2 comp_def)
  have same: "mset (map mv_id (messages_data c1)) = mset (map mv_id (messages_data c2))"
    using same_rows_conversation [OF assms(4), of "user_id b" "user_id a"]
    by (simp add: ids1 ids2 del: mset_map) (metis mset_map)
  have st: "set (map mv_id (messages_data c1)) =
       msg_id ` {m \<in> set (messages s). message_type m = ''direct'' \<and>
                  (\<exists>rc \<in> recipients m. {sender_id m, rc} = {user_id a, user_id b})}"
    by (simp add: ids1 set_conversation_qs conv_filter_pair)
  have srt: "sorted (map mv_timestamp (messages_data c1))" "sorted (map mv_timestamp (messages_data c2))"
    by (simp_all add: ts1 ts2 sorted_conversation_qs)
  have times: "map mv_timestamp (messages_data c1) = map mv_timestamp (messages_data c2)"
    by (simp add: ts1 ts2 same_rows_times [OF assms(4)])
  have untied: "map mv_id (messages_data c1) = map mv_id (messages_data c2) \<and>
        map mv_content (messages_data c1) = map mv_content (messages_data c2)"
    if "distinct (map mv_timestamp (messages_data c1))"
  proof -
    from that have "distinct (map created_at ?x)" by (simp add: ts1)
    from same_rows_untied [OF assms(4) this] show ?thesis
      by (simp add: ids1 ids2 cs1 cs2)
  qed
  from r1 r2 same st srt times untied show ?thesis by blast
qed

lemma wf_cross_store: "wf_store cross_store"
  by (simp add: wf_store_def cross_store_def cross_rows_def get_user_def ana_def jdoe_def)

lemma same_rows_cross: "same_rows cross_store cross_store_swapped"
  by (simp add: same_rows_def cross_store_def cross_store_swapped_def cross_rows_def)

text \<open>
  Claim C3 as stated fails: the query sorts on the creation time alone, so when a message
  of each direction carries the same creation time and the engine delivers the two rows to
  the two queries in different orders, one conversation lists the identifiers 1, 2, 3, 4
  and the other 1, 3, 2, 4.
\<close>

theorem conversation_order_counterexample:
  "wf_store cross_store \<and> same_rows cross_store cross_store_swapped \<and>
   \<not> isl (snd (get_conversation_messages no_redis cross_store ana 2)) \<and>
   \<not> isl (snd (get_conversation_messages no_redis cross_store_swapped jdoe 1)) \<and>
   map mv_timestamp (messages_data (projr (snd (get_conversation_messages no_redis cross_store ana 2)))) =
     [0, 10, 10, 20] \<and>
   map mv_id (messages_data (projr (snd (get_conversation_messages no_redis cross_store ana 2)))) =
     [1, 2, 3, 4] \<and>
   map mv_id (messages_data (projr (snd (get_conversation_messages no_redis cross_store_swapped jdoe 1)))) =
     [1, 3, 2, 4]"
  by (simp add: wf_cross_store same_rows_cross)
     (simp add: cross_store_def cross_store_swapped_def cross_rows_def get_user_def ana_def jdoe_def
      get_conversation_messages_def conversation_qs_def order_by_created_at_def conv_filter_def
      message_entry_def Let_def)

lemma same_rows_chat: "same_rows chat_store chat_store_swapped"
  by (simp add: same_rows_def chat_store_swapped_def)

text \<open>
  The amended statement of C3 at the short exchange, whose rows reach the second query in
  the opposite order: the creation times differ and both conversations list 1, 2.
\<close>

theorem conversation_symmetric_witness:
  "get_user chat_store (user_id ana) \<noteq> None \<and> get_user chat_store (user_id jdoe) \<noteq> None \<and>
   wf_store chat_store \<and> same_rows chat_store chat_store_swapped \<and>
   map msg_id (messages chat_store_swapped) = [2, 1] \<and>
   (\<exists>s1 c1 s2 c2.
     get_conversation_messages no_redis chat_store ana (user_id jdoe) = (s1, Inr c1) \<and>
     get_conversation_messages no_redis chat_store_swapped jdoe (user_id ana) = (s2, Inr c2) \<and>
     map mv_timestamp (messages_data c1) = [0, 7000000] \<and>
     map mv_timestamp (messages_data c2) = [0, 7000000] \<and>
     map mv_id (messages_data c1) = [1, 2] \<and>
     map mv_id (messages_data c2) = [1, 2])"
proof -
  have h1: "get_user chat_store (user_id ana) \<noteq> None"
    and h2: "get_user chat_store (user_id jdoe) \<noteq> None"
    by (simp_all add: chat_store_def get_user_def ana_def jdoe_def)
  have sw: "map msg_id (messages chat_store_swapped) = [2, 1]"
    by (simp add: chat_store_swapped_def chat_store_def hi_message_def)
  from conversation_symmetric [OF h1 h2 wf_chat_store same_rows_chat, of no_redis]
  obtain s1 c1 s2 c2 where
    r1: "get_conversation_messages no_redis chat_store ana (user_id jdoe) = (s1, Inr c1)" and
    r2: "get_conversation_messages no_redis chat_store_swapped jdoe (user_id ana) = (s2, Inr c2)" and
    ts: "map mv_timestamp (messages_data c1) = map mv_timestamp (messages_data c2)" and
    un: "distinct (map mv_timestamp (messages_data c1)) \<longrightarrow>
           map mv_id (messages_data c1) = map mv_id (messages_data c2)"
    by blast
  from conversation_result [OF r1]
  have d: "messages_data c1 =
      map (entry_for chat_store (user_id ana)) (conversation_qs chat_store (user_id ana) (user_id jdoe))"
    by blast
  have t1: "map mv_timestamp (messages_data c1) = [0, 7000000]"
    and i1: "map mv_id (messages_data c1) = [1, 2]"
    by (simp_all add: d conversation_qs_def order_by_created_at_def conv_filter_def chat_store_def
        hi_message_def ana_def jdoe_def)
  from ts t1 have t2: "map mv_timestamp (messages_data c2) = [0, 7000000]" by simp
  from un t1 i1 have i2: "map mv_id (messages_data c2) = [1, 2]" by simp
  show ?thesis
    using h1 h2 wf_chat_store same_rows_chat sw r1 r2 t1 t2 i1 i2
    by - (intro conjI exI, assumption+)
qed







lemma chat_conversation:
  "get_conversation_messages no_redis chat_store jdoe 1 =
     (fst (get_conversation_messages no_redis chat_store jdoe 1),
      Inr (projr (snd (get_conversation_messages no_redis chat_store jdoe 1))))"
  by (simp add: chat_store_def hi_message_def get_user_def ana_def jdoe_def
      get_conversation_messages_def conversation_qs_def order_by_created_at_def conv_filter_def
      save_is_read_def Let_def)


lemma set_read_messages:
  "m' \<in> set (messages (set_read F s)) \<longleftrightarrow>
   (\<exists>m \<in> set (messages s). m' = (if msg_id m \<in> F then m\<lparr>is_read := True\<rparr> else m))"
  by (auto simp: set_read_def)

lemma conv_filter_is_read [simp]: "conv_filter a b (m\<lparr>is_read := x\<rparr>) = conv_filter a b m"
  by (simp add: conv_filter_def)

lemma read_after_conversation:
  assumes "m' \<in> set (messages (set_read (flip_ids cur (conversation_qs s cur other)) s))"
    and "conv_filter cur other m'" and "sender_id m' \<noteq> cur"
  shows "is_read m'"
proof -
  let ?F = "flip_ids cur (conversation_qs s cur other)"
  from assms(1) obtain m where m: "m \<in> set (messages s)"
    and m': "m' = (if msg_id m \<in> ?F then m\<lparr>is_read := True\<rparr> else m)"
    by (auto simp: set_read_messages)
  show ?thesis
  proof (cases "msg_id m \<in> ?F")
    case True
    with m' show ?thesis by simp
  next
    case False
    with m' have eq: "m' = m" by simp
    with assms(2) m have "m \<in> set (conversation_qs s cur other)"
      by (simp add: set_conversation_qs)
    with False assms(3) eq show ?thesis
      by (auto simp: flip_ids_def)
  qed
qed

text \<open>
  Claim C5, as amended. For a viewer \<open>b\<close> and an existing user with id \<open>uid\<close>, on a store
  that satisfies the constraints of the database, the conversation view succeeds;
  afterwards every stored message of the conversation that \<open>b\<close> did not send is read, every
  listed entry that \<open>b\<close> did not send is shown as read, and, when the other user is not the
  viewer, no message counted by the unread count of \<open>b\<close> has that user as sender.
\<close>

theorem conversation_marks_read:
  assumes "get_user s uid \<noteq> None" and "wf_store s"
  shows "\<exists>s' c. get_conversation_messages r s b uid = (s', Inr c) \<and>
     (\<forall>m \<in> set (messages s'). conv_filter (user_id b) uid m \<and> sender_id m \<noteq> user_id b \<longrightarrow> is_read m) \<and>
     (\<forall>e \<in> set (messages_data c). \<not> mv_is_sent e \<longrightarrow> mv_is_read e) \<and>
     (user_id b \<noteq> uid \<longrightarrow> (\<forall>m \<in> set (unread_qs s' (user_id b)). sender_id m \<noteq> uid))"
proof -
  let ?qs = "conversation_qs s (user_id b) uid"
  let ?s' = "set_read (flip_ids (user_id b) ?qs) s"
  from assms(2) have fk: "list_all (\<lambda>m. get_user s (sender_id m) \<noteq> None) (messages s)"
    by (simp add: wf_store_def)
  from assms(1) obtain other where other: "get_user s uid = Some other" by auto
  from conversation_succeeds [OF other fk, of r b] obtain c
    where res: "get_conversation_messages r s b uid = (?s', Inr c)" by blast
  from conversation_result [OF res]
  have d: "messages_data c = map (entry_for s (user_id b)) ?qs" by blast
  have one: "\<forall>m \<in> set (messages ?s'). conv_filter (user_id b) uid m \<and> sender_id m \<noteq> user_id b \<longrightarrow> is_read m"
    using read_after_conversation by blast
  have two: "\<forall>e \<in> set (messages_data c). \<not> mv_is_sent e \<longrightarrow> mv_is_read e"
    by (auto simp: d entry_for_def message_entry_def)
  have three: "\<forall>m \<in> set (unread_qs ?s' (user_id b)). sender_id m \<noteq> uid" if ne: "user_id b \<noteq> uid"
  proof
    fix m assume "m \<in> set (unread_qs ?s' (user_id b))"
    then have m: "m \<in> set (messages ?s')" and u: "unread_filter (user_id b) m"
      by (simp_all add: unread_qs_def)
    show "sender_id m \<noteq> uid"
    proof
      assume s: "sender_id m = uid"
      with u have "conv_filter (user_id b) uid m"
        by (simp add: conv_filter_def unread_filter_def)
      with one m s ne have "is_read m" by auto
      with u show False by (simp add: unread_filter_def)
    qed
  qed
  from res one two three show ?thesis by blast
qed

text \<open>The amended statement of C5 at the short exchange, seen by the second user.\<close>

theorem conversation_marks_read_witness:
  "get_user chat_store 1 \<noteq> None \<and> wf_store chat_store \<and> user_id jdoe \<noteq> 1 \<and>
   map is_read (messages chat_store) = [False, False] \<and>
   (\<exists>s' c. get_conversation_messages no_redis chat_store jdoe 1 = (s', Inr c) \<and>
      map is_read (messages s') = [True, False] \<and>
      (\<forall>m \<in> set (unread_qs s' (user_id jdoe)). sender_id m \<noteq> 1))"
proof -
  have h: "get_user chat_store 1 \<noteq> None"
    by (simp add: chat_store_def get_user_def ana_def)
  have ne: "user_id jdoe \<noteq> 1" by (simp add: jdoe_def)
  have before: "map is_read (messages chat_store) = [False, False]"
    by (simp add: chat_store_def hi_message_def)
  from conversation_marks_read [OF h wf_chat_store, of no_redis jdoe] ne
  obtain s' c where r: "get_conversation_messages no_redis chat_store jdoe 1 = (s', Inr c)"
    and u: "\<forall>m \<in> set (unread_qs s' (user_id jdoe)). sender_id m \<noteq> 1"
    by blast
  from r have "s' = fst (get_conversation_messages no_redis chat_store jdoe 1)" by simp
  then have after: "map is_read (messages s') = [True, False]"
    by (simp add: chat_store_def hi_message_def get_user_def ana_def jdoe_def
      get_conversation_messages_def conversation_qs_def order_by_created_at_def conv_filter_def
      save_is_read_def Let_def)
  show ?thesis
    using h wf_chat_store ne before r after u by - (intro conjI exI, assumption+)
qed

text \<open>
  Claim C5 as stated fails when the viewer opens the conversation with themselves: the
  unread message they sent to themselves is skipped by the loop, stays unread and is still
  counted.
\<close>

theorem conversation_self_counterexample:
  "wf_store self_store \<and> get_user self_store 2 = Some jdoe \<and>
   \<not> isl (snd (get_conversation_messages no_redis self_store jdoe 2)) \<and>
   map sender_id (unread_qs (fst (get_conversation_messages no_redis self_store jdoe 2)) (user_id jdoe)) = [2] \<and>
   get_unread_count_api (fst (get_conversation_messages no_redis self_store jdoe 2)) jdoe = Inr 1"
  by (simp add: wf_store_def self_store_def get_user_def ana_def jdoe_def
      get_conversation_messages_def conversation_qs_def order_by_created_at_def conv_filter_def
      message_entry_def Let_def unread_qs_def unread_filter_def get_unread_count_api_def)

section \<open>Sending\<close>

lemma first_by_pk_None: "first_by_pk xs = None \<longleftrightarrow> xs = []"
  by (induction xs) (auto split: option.splits)

lemma first_by_pk_Some: "first_by_pk xs = Some e \<Longrightarrow> e \<in> set xs"
  by (induction xs arbitrary: e) (auto split: option.splits if_splits)

lemma first_by_pk_least: "first_by_pk xs = Some e \<Longrightarrow> x \<in> set xs \<Longrightarrow> msg_id e \<le> msg_id x"
  by (induction xs arbitrary: e) (fastforce split: option.splits if_splits simp: first_by_pk_None)+

lemma send_valid:
  assumes "body_recipient_id data = Some rid" and "rid \<noteq> 0"
    and "strip (body_content data) = c" and "c \<noteq> []" and "get_user s rid = Some rcp"
  shows "send_message_api r s a data now now' =
    (case first_by_pk (filter (dedup_filter (user_id a) c (now - dedup_window)) (messages s)) of
       Some e \<Rightarrow>
         (if rid \<in> recipients e then s else recipients_add s (msg_id e) rid,
          publish_message r e a rcp,
          Inr \<lparr>message_id = msg_id e, timestamp = created_at e\<rparr>)
     | None \<Rightarrow>
         (recipients_add (fst (create_message s (user_id a) c ''direct'' now')) (next_id s) rid,
          publish_message r (snd (create_message s (user_id a) c ''direct'' now')) a rcp,
          Inr \<lparr>message_id = next_id s, timestamp = now'\<rparr>))"
proof -
  have "user_id rcp = rid" using assms(5) by (rule get_user_id)
  with assms show ?thesis
    by (simp add: send_message_api_def Let_def create_message_def split: option.splits)
qed

lemma map_update_absent:
  "k \<notin> msg_id ` set xs \<Longrightarrow> map (\<lambda>m. if msg_id m = k then g m else m) xs = xs"
  by (induction xs) auto

lemma map_update_distinct:
  assumes "distinct (map msg_id xs)" and "e \<in> set xs"
  shows "map (\<lambda>m. if msg_id m = msg_id e then g m else m) xs = map (\<lambda>m. if m = e then g e else m) xs"
proof (rule map_cong [OF refl])
  fix m assume "m \<in> set xs"
  moreover from assms(1) have "inj_on msg_id (set xs)" by (simp add: distinct_map)
  ultimately have "msg_id m = msg_id e \<longleftrightarrow> m = e"
    using assms(2) by (auto dest: inj_onD)
  then show "(if msg_id m = msg_id e then g m else m) = (if m = e then g e else m)" by auto
qed

lemma wf_fresh: "wf_store s \<Longrightarrow> next_id s \<notin> msg_id ` set (messages s)"
  by (auto simp: wf_store_def list_all_iff)

text \<open>
  Claim C1. A send with a non-zero recipient id of an existing user and a content that is
  not empty once stripped, on a store that satisfies the constraints of the database.
  If a direct message of the same sender with the same stripped content was created at or
  after five seconds before the request, no row is added: one such message \<open>e\<close> is reused,
  the recipient joins its recipient set (a set, so nothing changes when the recipient is in
  it already), every other row is untouched and the answer carries the identifier and
  creation time of \<open>e\<close>. If all such messages are older, a row with a fresh identifier, the
  recipient as its only recipient and the request's creation time is added.
\<close>

theorem dedup_policy:
  assumes "body_recipient_id data = Some rid" and "rid \<noteq> 0" and "get_user s rid \<noteq> None"
    and "strip (body_content data) = c" and "c \<noteq> []" and "wf_store s"
  shows
   "(list_ex (dedup_filter (user_id a) c (now - dedup_window)) (messages s) \<longrightarrow>
      (\<exists>e \<in> set (messages s). dedup_filter (user_id a) c (now - dedup_window) e \<and>
         fst (send_message_api r s a data now now') =
           s\<lparr>messages := map (\<lambda>m. if m = e then e\<lparr>recipients := insert rid (recipients e)\<rparr> else m)
                            (messages s)\<rparr> \<and>
         snd (snd (send_message_api r s a data now now')) =
           Inr \<lparr>message_id = msg_id e, timestamp = created_at e\<rparr>)) \<and>
    (\<not> list_ex (dedup_filter (user_id a) c (now - dedup_window)) (messages s) \<longrightarrow>
       fst (send_message_api r s a data now now') =
         s\<lparr>messages := messages s @
              [\<lparr>msg_id = next_id s, sender_id = user_id a, recipients = {rid}, content = c,
                message_type = ''direct'', is_read = False, created_at = now'\<rparr>],
           next_id := next_id s + 1\<rparr> \<and>
       next_id s \<notin> msg_id ` set (messages s) \<and>
       snd (snd (send_message_api r s a data now now')) =
         Inr \<lparr>message_id = next_id s, timestamp = now'\<rparr>)"
proof -
  let ?F = "dedup_filter (user_id a) c (now - dedup_window)"
  from assms(3) obtain rcp where rcp: "get_user s rid = Some rcp" by auto
  note sv = send_valid [OF assms(1) assms(2) assms(4) assms(5) rcp, of r a now now']
  from assms(6) have dist: "distinct (map msg_id (messages s))" by (simp add: wf_store_def)
  have reuse: "\<exists>e \<in> set (messages s). ?F e \<and>
         fst (send_message_api r s a data now now') =
           s\<lparr>messages := map (\<lambda>m. if m = e then e\<lparr>recipients := insert rid (recipients e)\<rparr> else m)
                            (messages s)\<rparr> \<and>
         snd (snd (send_message_api r s a data now now')) =
           Inr \<lparr>message_id = msg_id e, timestamp = created_at e\<rparr>"
    if ex: "list_ex ?F (messages s)"
  proof -
    from ex have "filter ?F (messages s) \<noteq> []"
      by (simp add: list_ex_iff filter_empty_conv)
    then obtain e where e: "first_by_pk (filter ?F (messages s)) = Some e"
      by (cases "first_by_pk (filter ?F (messages s))") (auto simp: first_by_pk_None)
    from first_by_pk_Some [OF e] have mem: "e \<in> set (messages s)" and Fe: "?F e" by auto
    have upd: "recipients_add s (msg_id e) rid =
       s\<lparr>messages := map (\<lambda>m. if m = e then e\<lparr>recipients := insert rid (recipients e)\<rparr> else m)
                        (messages s)\<rparr>"
      unfolding recipients_add_def
      using map_update_distinct [OF dist mem, of "\<lambda>m. m\<lparr>recipients := insert rid (recipients m)\<rparr>"]
      by simp
    have same: "s\<lparr>messages := map (\<lambda>m. if m = e then e\<lparr>recipients := insert rid (recipients e)\<rparr> else m)
                        (messages s)\<rparr> = s" if "rid \<in> recipients e"
    proof -
      from that have "e\<lparr>recipients := insert rid (recipients e)\<rparr> = e"
        by (simp add: insert_absorb)
      then have "map (\<lambda>m. if m = e then e\<lparr>recipients := insert rid (recipients e)\<rparr> else m) (messages s)
           = messages s"
        by (intro map_idI) auto
      then show ?thesis by simp
    qed
    from sv e upd same have
      "fst (send_message_api r s a data now now') =
           s\<lparr>messages := map (\<lambda>m. if m = e then e\<lparr>recipients := insert rid (recipients e)\<rparr> else m)
                            (messages s)\<rparr>"
      and "snd (snd (send_message_api r s a data now now')) =
           Inr \<lparr>message_id = msg_id e, timestamp = created_at e\<rparr>"
      by (simp_all split: if_splits)
    with mem Fe show ?thesis by blast
  qed
  have fresh: "next_id s \<notin> msg_id ` set (messages s)"
    using assms(6) by (rule wf_fresh)
  have new: "fst (send_message_api r s a data now now') =
         s\<lparr>messages := messages s @
              [\<lparr>msg_id = next_id s, sender_id = user_id a, recipients = {rid}, content = c,
                message_type = ''direct'', is_read = False, created_at = now'\<rparr>],
           next_id := next_id s + 1\<rparr> \<and>
       snd (snd (send_message_api r s a data now now')) =
         Inr \<lparr>message_id = next_id s, timestamp = now'\<rparr>"
    if nex: "\<not> list_ex ?F (messages s)"
  proof -
    from nex have "filter ?F (messages s) = []"
      by (simp add: list_ex_iff filter_empty_conv)
    then have "first_by_pk (filter ?F (messages s)) = None" by simp
    with sv fresh show ?thesis
      by (simp add: create_message_def recipients_add_def Let_def map_update_absent)
  qed
  from reuse new fresh show ?thesis by blast
qed

lemma hi_body_facts:
  "body_recipient_id hi_body = Some 2" "strip (body_content hi_body) = ''hi''"
  by (simp_all add: hi_body_def strip_def is_space_def)

lemma get_user_hi_store: "get_user hi_store 2 = Some jdoe"
  by (simp add: hi_store_def get_user_def ana_def jdoe_def)

text \<open>
  The statement of C1 on the examples of the specification: the first send to an empty
  store gives one row; the same send three seconds later leaves that one row, with the
  recipient set unchanged; the same send ten seconds later gives a second row.
\<close>

theorem dedup_policy_witness:
  "fst (send_message_api no_redis empty_store ana hi_body 0 0) = hi_store \<and>
   wf_store hi_store \<and>
   list_ex (dedup_filter (user_id ana) ''hi'' (3000000 - dedup_window)) (messages hi_store) \<and>
   fst (send_message_api no_redis hi_store ana hi_body 3000000 3000001) = hi_store \<and>
   snd (snd (send_message_api no_redis hi_store ana hi_body 3000000 3000001)) =
     Inr \<lparr>message_id = 1, timestamp = 0\<rparr> \<and>
   \<not> list_ex (dedup_filter (user_id ana) ''hi'' (10000000 - dedup_window)) (messages hi_store) \<and>
   map msg_id (messages (fst (send_message_api no_redis hi_store ana hi_body 10000000 10000001))) = [1, 2] \<and>
   snd (snd (send_message_api no_redis hi_store ana hi_body 10000000 10000001)) =
     Inr \<lparr>message_id = 2, timestamp = 10000001\<rparr>"
proof -
  have first: "fst (send_message_api no_redis empty_store ana hi_body 0 0) = hi_store"
    by (simp add: send_message_api_def hi_body_def strip_def is_space_def empty_store_def
        hi_store_def hi_message_def get_user_def ana_def jdoe_def create_message_def
        recipients_add_def Let_def dedup_filter_def)
  have u: "get_user hi_store 2 \<noteq> None" by (simp add: get_user_hi_store)
  have nz: "(2::int) \<noteq> 0" and ne: "''hi'' \<noteq> []" by simp_all
  have inw: "list_ex (dedup_filter (user_id ana) ''hi'' (3000000 - dedup_window)) (messages hi_store)"
    by (simp add: dedup_filter_def dedup_window_def hi_store_def hi_message_def ana_def)
  have out: "\<not> list_ex (dedup_filter (user_id ana) ''hi'' (10000000 - dedup_window)) (messages hi_store)"
    by (simp add: dedup_filter_def dedup_window_def hi_store_def hi_message_def ana_def)
  from dedup_policy [OF hi_body_facts(1) nz u hi_body_facts(2) ne wf_hi_store,
      of ana 3000000 no_redis 3000001] inw
  have reuse: "fst (send_message_api no_redis hi_store ana hi_body 3000000 3000001) = hi_store"
    "snd (snd (send_message_api no_redis hi_store ana hi_body 3000000 3000001)) =
       Inr \<lparr>message_id = 1, timestamp = 0\<rparr>"
    by (auto simp: hi_store_def hi_message_def)
  from dedup_policy [OF hi_body_facts(1) nz u hi_body_facts(2) ne wf_hi_store,
      of ana 10000000 no_redis 10000001] out
  have new: "map msg_id (messages (fst (send_message_api no_redis hi_store ana hi_body 10000000 10000001))) = [1, 2]"
    "snd (snd (send_message_api no_redis hi_store ana hi_body 10000000 10000001)) =
       Inr \<lparr>message_id = 2, timestamp = 10000001\<rparr>"
    by (auto simp: hi_store_def hi_message_def)
  from first wf_hi_store inw reuse out new show ?thesis by simp
qed

lemma count_update:
  assumes "distinct (map msg_id xs)" and "e \<in> set xs"
  shows "length (filter P (map (\<lambda>m. if m = e then e' else m) xs)) + (if P e then 1 else 0) =
         length (filter P xs) + (if P e' then 1 else 0)"
proof -
  from assms(1) have "distinct xs" by (simp add: distinct_map)
  with assms(2) show ?thesis
  proof (induction xs)
    case Nil
    then show ?case by simp
  next
    case (Cons x xs)
    show ?case
    proof (cases "x = e")
      case True
      with Cons.prems have "e \<notin> set xs" by simp
      then have "map (\<lambda>m. if m = e then e' else m) xs = xs"
        by (intro map_idI) auto
      with True show ?thesis by simp
    next
      case False
      with Cons show ?thesis by auto
    qed
  qed
qed

lemma send_new:
  assumes "body_recipient_id data = Some rid" and "rid \<noteq> 0" and "get_user s rid = Some rcp"
    and "strip (body_content data) = c" and "c \<noteq> []" and "wf_store s"
    and "first_by_pk (filter (dedup_filter (user_id a) c (now - dedup_window)) (messages s)) = None"
  shows "fst (send_message_api r s a data now now') =
         s\<lparr>messages := messages s @
              [\<lparr>msg_id = next_id s, sender_id = user_id a, recipients = {rid}, content = c,
                message_type = ''direct'', is_read = False, created_at = now'\<rparr>],
           next_id := next_id s + 1\<rparr>"
  using send_valid [OF assms(1) assms(2) assms(4) assms(5) assms(3), of r a now now']
    assms(7) wf_fresh [OF assms(6)]
  by (simp add: create_message_def recipients_add_def Let_def map_update_absent)

lemma send_reuse:
  assumes "body_recipient_id data = Some rid" and "rid \<noteq> 0" and "get_user s rid = Some rcp"
    and "strip (body_content data) = c" and "c \<noteq> []" and "wf_store s"
    and "first_by_pk (filter (dedup_filter (user_id a) c (now - dedup_window)) (messages s)) = Some e"
  shows "fst (send_message_api r s a data now now') =
         s\<lparr>messages := map (\<lambda>m. if m = e then e\<lparr>recipients := insert rid (recipients e)\<rparr> else m)
                          (messages s)\<rparr>"
proof -
  from assms(6) have dist: "distinct (map msg_id (messages s))" by (simp add: wf_store_def)
  from first_by_pk_Some [OF assms(7)] have mem: "e \<in> set (messages s)" by simp
  have upd: "recipients_add s (msg_id e) rid =
     s\<lparr>messages := map (\<lambda>m. if m = e then e\<lparr>recipients := insert rid (recipients e)\<rparr> else m)
                      (messages s)\<rparr>"
    unfolding recipients_add_def
    using map_update_distinct [OF dist mem, of "\<lambda>m. m\<lparr>recipients := insert rid (recipients m)\<rparr>"]
    by simp
  show ?thesis
  proof (cases "rid \<in> recipients e")
    case True
    then have "e\<lparr>recipients := insert rid (recipients e)\<rparr> = e"
      by (simp add: insert_absorb)
    then have "map (\<lambda>m. if m = e then e\<lparr>recipients := insert rid (recipients e)\<rparr> else m) (messages s)
         = messages s"
      by (intro map_idI) auto
    with True send_valid [OF assms(1) assms(2) assms(4) assms(5) assms(3), of r a now now'] assms(7)
    show ?thesis by simp
  next
    case False
    with upd send_valid [OF assms(1) assms(2) assms(4) assms(5) assms(3), of r a now now'] assms(7)
    show ?thesis by simp
  qed
qed

text \<open>
  Claim C2, as amended. A send from \<open>a\<close> to another user \<open>b\<close> that passes validation, on a
  store that satisfies the constraints of the database. The unread count of \<open>a\<close> is
  unchanged. When no direct message of \<open>a\<close> with the same stripped content lies in the
  five-second window, a row is created and the unread count of \<open>b\<close> grows by exactly one.
  When a message \<open>e\<close> is reused, the unread count of \<open>b\<close> grows by one if \<open>b\<close> was not yet a
  recipient of \<open>e\<close> and \<open>e\<close> is unread, and is unchanged otherwise.
\<close>

theorem unread_after_send:
  assumes "body_recipient_id data = Some rid" and "rid \<noteq> 0" and "get_user s rid = Some b"
    and "strip (body_content data) = c" and "c \<noteq> []" and "wf_store s"
    and "user_id a \<noteq> rid"
  shows
   "get_unread_count_api (fst (send_message_api r s a data now now')) a = get_unread_count_api s a \<and>
    (\<exists>n. get_unread_count_api s b = Inr n \<and>
       (\<not> list_ex (dedup_filter (user_id a) c (now - dedup_window)) (messages s) \<longrightarrow>
          get_unread_count_api (fst (send_message_api r s a data now now')) b = Inr (n + 1)) \<and>
       (\<forall>e. first_by_pk (filter (dedup_filter (user_id a) c (now - dedup_window)) (messages s)) = Some e \<longrightarrow>
          get_unread_count_api (fst (send_message_api r s a data now now')) b =
            Inr (if rid \<notin> recipients e \<and> \<not> is_read e then n + 1 else n)))"
proof -
  let ?F = "dedup_filter (user_id a) c (now - dedup_window)"
  let ?s' = "fst (send_message_api r s a data now now')"
  have bid: "user_id b = rid" using assms(3) by (rule get_user_id)
  from assms(6) have dist: "distinct (map msg_id (messages s))" by (simp add: wf_store_def)
  have new_a: "length (unread_qs ?s' (user_id a)) = length (unread_qs s (user_id a))"
    and new_b: "length (unread_qs ?s' rid) = length (unread_qs s rid) + 1"
    if "first_by_pk (filter ?F (messages s)) = None"
    using send_new [OF assms(1) assms(2) assms(3) assms(4) assms(5) assms(6) that, of r now'] assms(7)
    by (simp_all add: unread_qs_def unread_filter_def)
  have re_a: "length (unread_qs ?s' (user_id a)) = length (unread_qs s (user_id a))"
    and re_b: "length (unread_qs ?s' rid) =
       (if rid \<notin> recipients e \<and> \<not> is_read e then length (unread_qs s rid) + 1 else length (unread_qs s rid))"
    if e: "first_by_pk (filter ?F (messages s)) = Some e" for e
  proof -
    from first_by_pk_Some [OF e] have mem: "e \<in> set (messages s)" and Fe: "?F e" by auto
    note st = send_reuse [OF assms(1) assms(2) assms(3) assms(4) assms(5) assms(6) e, of r now']
    from count_update [OF dist mem, of "unread_filter (user_id a)" "e\<lparr>recipients := insert rid (recipients e)\<rparr>"]
      assms(7)
    show "length (unread_qs ?s' (user_id a)) = length (unread_qs s (user_id a))"
      by (simp add: st unread_qs_def unread_filter_def)
    from count_update [OF dist mem, of "unread_filter rid" "e\<lparr>recipients := insert rid (recipients e)\<rparr>"]
      Fe
    show "length (unread_qs ?s' rid) =
       (if rid \<notin> recipients e \<and> \<not> is_read e then length (unread_qs s rid) + 1 else length (unread_qs s rid))"
      by (auto simp add: st unread_qs_def unread_filter_def dedup_filter_def split: if_splits)
  qed
  have one: "get_unread_count_api ?s' a = get_unread_count_api s a"
    using new_a re_a
    by (cases "first_by_pk (filter ?F (messages s))") (simp_all add: get_unread_count_api_def)
  have none_iff: "\<not> list_ex ?F (messages s) \<longleftrightarrow> first_by_pk (filter ?F (messages s)) = None"
    by (simp add: first_by_pk_None list_ex_iff filter_empty_conv)
  have two: "get_unread_count_api s b = Inr (length (unread_qs s rid))"
    by (simp add: get_unread_count_api_def bid)
  have three: "\<not> list_ex ?F (messages s) \<longrightarrow>
      get_unread_count_api ?s' b = Inr (length (unread_qs s rid) + 1)"
    using new_b by (simp add: none_iff get_unread_count_api_def bid)
  have four: "\<forall>e. first_by_pk (filter ?F (messages s)) = Some e \<longrightarrow>
      get_unread_count_api ?s' b =
        Inr (if rid \<notin> recipients e \<and> \<not> is_read e then length (unread_qs s rid) + 1
             else length (unread_qs s rid))"
    using re_b by (simp add: get_unread_count_api_def bid)
  from one two three four show ?thesis by blast
qed

text \<open>
  Claim C2 as stated fails: one second after the first send, the same send from the first
  user to the second succeeds by reusing the stored message, and the unread count of the
  second user is one before and one after.
\<close>

theorem unread_after_resend_counterexample:
  "user_id ana \<noteq> user_id jdoe \<and> wf_store hi_store \<and>
   snd (snd (send_message_api no_redis hi_store ana hi_body 1000000 1000001)) =
     Inr \<lparr>message_id = 1, timestamp = 0\<rparr> \<and>
   get_unread_count_api hi_store jdoe = Inr 1 \<and>
   get_unread_count_api (fst (send_message_api no_redis hi_store ana hi_body 1000000 1000001)) jdoe = Inr 1"
  by (simp add: wf_store_def send_message_api_def hi_body_def strip_def is_space_def
        hi_store_def hi_message_def get_user_def ana_def jdoe_def
        Let_def dedup_filter_def dedup_window_def get_unread_count_api_def unread_qs_def
        unread_filter_def)

lemma wf_empty_store: "wf_store empty_store"
  by (simp add: wf_store_def empty_store_def)

text \<open>
  The amended statement of C2 at the first send to the empty store (a new row) and at the
  repeated send three seconds later (the row reused).
\<close>

theorem unread_after_send_witness:
  "wf_store empty_store \<and> user_id ana \<noteq> 2 \<and>
   \<not> list_ex (dedup_filter (user_id ana) ''hi'' (0 - dedup_window)) (messages empty_store) \<and>
   get_unread_count_api empty_store jdoe = Inr 0 \<and>
   get_unread_count_api (fst (send_message_api no_redis empty_store ana hi_body 0 0)) jdoe = Inr 1 \<and>
   get_unread_count_api (fst (send_message_api no_redis empty_store ana hi_body 0 0)) ana =
     get_unread_count_api empty_store ana \<and>
   first_by_pk (filter (dedup_filter (user_id ana) ''hi'' (3000000 - dedup_window)) (messages hi_store)) =
     Some hi_message \<and>
   get_unread_count_api hi_store jdoe = Inr 1 \<and>
   get_unread_count_api (fst (send_message_api no_redis hi_store ana hi_body 3000000 3000001)) jdoe = Inr 1"
proof -
  have nz: "(2::int) \<noteq> 0" and ne: "''hi'' \<noteq> []" and na: "user_id ana \<noteq> 2"
    by (simp_all add: ana_def)
  have u0: "get_user empty_store 2 = Some jdoe"
    by (simp add: empty_store_def get_user_def ana_def jdoe_def)
  have nohit: "\<not> list_ex (dedup_filter (user_id ana) ''hi'' (0 - dedup_window)) (messages empty_store)"
    by (simp add: empty_store_def)
  have c0: "get_unread_count_api empty_store jdoe = Inr 0"
    by (simp add: get_unread_count_api_def unread_qs_def empty_store_def)
  have hit: "first_by_pk (filter (dedup_filter (user_id ana) ''hi'' (3000000 - dedup_window)) (messages hi_store)) =
     Some hi_message"
    by (simp add: dedup_filter_def dedup_window_def hi_store_def hi_message_def ana_def)
  have c1: "get_unread_count_api hi_store jdoe = Inr 1"
    by (simp add: get_unread_count_api_def unread_qs_def unread_filter_def hi_store_def
        hi_message_def jdoe_def)
  have rc: "2 \<in> recipients hi_message" by (simp add: hi_message_def)
  from unread_after_send [OF hi_body_facts(1) nz u0 hi_body_facts(2) ne wf_empty_store na,
      of no_redis 0 0] nohit c0
  have new: "get_unread_count_api (fst (send_message_api no_redis empty_store ana hi_body 0 0)) jdoe = Inr 1"
    "get_unread_count_api (fst (send_message_api no_redis empty_store ana hi_body 0 0)) ana =
       get_unread_count_api empty_store ana"
    by auto
  from unread_after_send [OF hi_body_facts(1) nz get_user_hi_store hi_body_facts(2) ne wf_hi_store na,
      of no_redis 3000000 3000001] hit c1 rc
  have re: "get_unread_count_api (fst (send_message_api no_redis hi_store ana hi_body 3000000 3000001)) jdoe = Inr 1"
    by auto
  from wf_empty_store na nohit c0 new hit c1 re show ?thesis by simp
qed

section \<open>Errors\<close>

lemma send_invalid:
  "body_recipient_id data = None \<or> body_recipient_id data = Some 0 \<or> strip (body_content data) = [] \<Longrightarrow>
   send_message_api r s a data now now' = (s, [], Inl (Validation ''Missing fields''))"
  by (auto simp: send_message_api_def Let_def)

lemma send_no_recipient:
  "body_recipient_id data = Some rid \<Longrightarrow> rid \<noteq> 0 \<Longrightarrow> strip (body_content data) \<noteq> [] \<Longrightarrow>
   get_user s rid = None \<Longrightarrow>
   send_message_api r s a data now now' = (s, [], Inl (NotFound ''Recipient not found''))"
  by (simp add: send_message_api_def Let_def)

lemma send_valid_Inr:
  assumes "body_recipient_id data = Some rid" and "rid \<noteq> 0"
    and "strip (body_content data) \<noteq> []" and "get_user s rid \<noteq> None"
  shows "\<exists>m \<in> set (messages (fst (send_message_api r s a data now now'))).
           snd (snd (send_message_api r s a data now now')) =
             Inr \<lparr>message_id = msg_id m, timestamp = created_at m\<rparr>"
proof -
  let ?c = "strip (body_content data)"
  let ?F = "dedup_filter (user_id a) ?c (now - dedup_window)"
  from assms(4) obtain rcp where rcp: "get_user s rid = Some rcp" by auto
  note sv = send_valid [OF assms(1) assms(2) refl assms(3) rcp, of r a now now']
  show ?thesis
  proof (cases "first_by_pk (filter ?F (messages s))")
    case None
    let ?m = "\<lparr>msg_id = next_id s, sender_id = user_id a, recipients = {rid}, content = ?c,
               message_type = ''direct'', is_read = False, created_at = now'\<rparr>"
    have "?m \<in> set (messages (recipients_add (fst (create_message s (user_id a) ?c ''direct'' now'))
                  (next_id s) rid))"
      by (simp add: create_message_def recipients_add_def Let_def)
    with sv None show ?thesis
      by (auto intro!: bexI [where x = ?m])
  next
    case (Some e)
    from first_by_pk_Some [OF Some] have mem: "e \<in> set (messages s)" by simp
    show ?thesis
    proof (cases "rid \<in> recipients e")
      case True
      with sv Some mem show ?thesis by auto
    next
      case False
      from mem have "e\<lparr>recipients := insert rid (recipients e)\<rparr> \<in> set (messages (recipients_add s (msg_id e) rid))"
        by (force simp: recipients_add_def)
      with sv Some False show ?thesis
        by (auto intro!: bexI [where x = "e\<lparr>recipients := insert rid (recipients e)\<rparr>"])
    qed
  qed
qed

lemma send_cases:
  "body_recipient_id data = None \<or> body_recipient_id data = Some 0 \<or> strip (body_content data) = [] \<or>
   (\<exists>rid. body_recipient_id data = Some rid \<and> rid \<noteq> 0 \<and> strip (body_content data) \<noteq> [] \<and>
      get_user s rid = None) \<or>
   (\<exists>rid. body_recipient_id data = Some rid \<and> rid \<noteq> 0 \<and> strip (body_content data) \<noteq> [] \<and>
      get_user s rid \<noteq> None)"
  by (cases "body_recipient_id data") auto

lemma conversation_unknown_user:
  "get_user s uid = None \<Longrightarrow>
   get_conversation_messages r s v uid = (s, Inl (NotFound ''User not found''))"
  by (simp add: get_conversation_messages_def)

text \<open>
  Claim C8, as amended. A send fails with the validation error exactly when the recipient
  id is missing or zero or the content is empty once stripped; it fails with the not-found
  error exactly when the recipient id is present and not zero, the stripped content is not
  empty and no user has that id; a failed send leaves the store as it was. The
  conversation view of an id that no user has answers not-found and leaves the store as it
  was; on a store that satisfies the constraints of the database it does not fail for the
  id of an existing user.
\<close>

theorem request_errors:
  "((\<exists>msg. snd (snd (send_message_api r s a data now now')) = Inl (Validation msg)) \<longleftrightarrow>
      body_recipient_id data = None \<or> body_recipient_id data = Some 0 \<or> strip (body_content data) = []) \<and>
   ((\<exists>msg. snd (snd (send_message_api r s a data now now')) = Inl (NotFound msg)) \<longleftrightarrow>
      (\<exists>rid. body_recipient_id data = Some rid \<and> rid \<noteq> 0 \<and> strip (body_content data) \<noteq> [] \<and>
         get_user s rid = None)) \<and>
   (isl (snd (snd (send_message_api r s a data now now'))) \<longrightarrow>
      fst (send_message_api r s a data now now') = s) \<and>
   (get_user s uid = None \<longrightarrow>
      get_conversation_messages r s v uid = (s, Inl (NotFound ''User not found''))) \<and>
   (wf_store s \<longrightarrow> get_user s uid \<noteq> None \<longrightarrow> \<not> isl (snd (get_conversation_messages r s v uid)))"
proof -
  let ?res = "send_message_api r s a data now now'"
  have sendpart:
    "((\<exists>msg. snd (snd ?res) = Inl (Validation msg)) \<longleftrightarrow>
      body_recipient_id data = None \<or> body_recipient_id data = Some 0 \<or> strip (body_content data) = []) \<and>
     ((\<exists>msg. snd (snd ?res) = Inl (NotFound msg)) \<longleftrightarrow>
      (\<exists>rid. body_recipient_id data = Some rid \<and> rid \<noteq> 0 \<and> strip (body_content data) \<noteq> [] \<and>
         get_user s rid = None)) \<and>
     (isl (snd (snd ?res)) \<longrightarrow> fst ?res = s)"
  proof -
    consider
      (invalid) "body_recipient_id data = None \<or> body_recipient_id data = Some 0 \<or> strip (body_content data) = []"
      | (missing) rid where "body_recipient_id data = Some rid" "rid \<noteq> 0" "strip (body_content data) \<noteq> []"
          "get_user s rid = None"
      | (valid) rid where "body_recipient_id data = Some rid" "rid \<noteq> 0" "strip (body_content data) \<noteq> []"
          "get_user s rid \<noteq> None"
      using send_cases [of data s] by blast
    then show ?thesis
    proof cases
      case invalid
      from send_invalid [OF invalid, of r s a now now'] invalid show ?thesis by auto
    next
      case missing
      from send_no_recipient [OF missing, of r a now now'] missing show ?thesis by auto
    next
      case valid
      from send_valid_Inr [OF valid, of r a now now'] valid show ?thesis by auto
    qed
  qed
  have conv: "\<not> isl (snd (get_conversation_messages r s v uid))"
    if "wf_store s" "get_user s uid \<noteq> None"
  proof -
    from that(1) have fk: "list_all (\<lambda>m. get_user s (sender_id m) \<noteq> None) (messages s)"
      by (simp add: wf_store_def)
    from that(2) obtain other where "get_user s uid = Some other" by auto
    from conversation_succeeds [OF this fk, of r v] show ?thesis by auto
  qed
  from sendpart conv conversation_unknown_user [of s uid r v] show ?thesis by blast
qed

text \<open>
  Claim C8 as stated fails: with the recipient id 0, which no user has, and the content
  \<open>hi\<close> the answer is the validation error although the content is not empty; with the
  recipient id 99, which no user has, and a blank content the answer is the validation
  error and not the not-found error.
\<close>

theorem request_errors_counterexample:
  "get_user hi_store 0 = None \<and> strip ''hi'' \<noteq> [] \<and>
   snd (snd (send_message_api no_redis hi_store ana
       \<lparr>body_recipient_id = Some 0, body_content = ''hi''\<rparr> 0 0)) = Inl (Validation ''Missing fields'') \<and>
   get_user hi_store 99 = None \<and> strip ''  '' = [] \<and>
   snd (snd (send_message_api no_redis hi_store ana
       \<lparr>body_recipient_id = Some 99, body_content = ''  ''\<rparr> 0 0)) = Inl (Validation ''Missing fields'')"
  by (simp add: send_message_api_def strip_def is_space_def hi_store_def get_user_def ana_def
      jdoe_def Let_def)

text \<open>
  The amended statement of C8 at the store with one message: a send to the unknown id 99,
  the conversation with the unknown id 99 and the conversation with the second user.
\<close>

theorem request_errors_witness:
  "get_user hi_store 99 = None \<and>
   send_message_api no_redis hi_store ana \<lparr>body_recipient_id = Some 99, body_content = ''hi''\<rparr> 0 0 =
     (hi_store, [], Inl (NotFound ''Recipient not found'')) \<and>
   get_conversation_messages no_redis hi_store ana 99 = (hi_store, Inl (NotFound ''User not found'')) \<and>
   wf_store hi_store \<and> get_user hi_store 2 \<noteq> None \<and>
   \<not> isl (snd (get_conversation_messages no_redis hi_store ana 2))"
proof -
  have n: "get_user hi_store 99 = None"
    by (simp add: hi_store_def get_user_def ana_def jdoe_def)
  have u: "get_user hi_store 2 \<noteq> None" by (simp add: get_user_hi_store)
  have b: "body_recipient_id \<lparr>body_recipient_id = Some 99, body_content = ''hi''\<rparr> = Some 99"
    "(99::int) \<noteq> 0" "strip (body_content \<lparr>body_recipient_id = Some 99, body_content = ''hi''\<rparr>) \<noteq> []"
    by (simp_all add: strip_def is_space_def)
  from request_errors [of no_redis hi_store ana "\<lparr>body_recipient_id = Some 99, body_content = ''hi''\<rparr>" 0 0 99 ana]
    n b
  have "\<exists>msg. snd (snd (send_message_api no_redis hi_store ana
          \<lparr>body_recipient_id = Some 99, body_content = ''hi''\<rparr> 0 0)) = Inl (NotFound msg)"
    and c: "get_conversation_messages no_redis hi_store ana 99 = (hi_store, Inl (NotFound ''User not found''))"
    by auto
  then have s: "send_message_api no_redis hi_store ana \<lparr>body_recipient_id = Some 99, body_content = ''hi''\<rparr> 0 0 =
     (hi_store, [], Inl (NotFound ''Recipient not found''))"
    using n b by (simp add: send_no_recipient)
  from request_errors [of no_redis hi_store ana hi_body 0 0 2 ana] wf_hi_store u
  have "\<not> isl (snd (get_conversation_messages no_redis hi_store ana 2))" by blast
  with n s c wf_hi_store u show ?thesis by simp
qed

section \<open>The broker and the initials\<close>

lemma send_broker_independent:
  "fst (send_message_api r s a data now now') = fst (send_message_api r' s a data now now')"
  "snd (snd (send_message_api r s a data now now')) = snd (snd (send_message_api r' s a data now now'))"
  by (simp_all add: send_message_api_def Let_def create_message_def split: option.splits)

lemma conversation_broker_independent:
  "fst (get_conversation_messages r s v uid) = fst (get_conversation_messages r' s v uid)"
  "map_sum id messages_data (snd (get_conversation_messages r s v uid)) =
   map_sum id messages_data (snd (get_conversation_messages r' s v uid))"
  by (simp_all add: get_conversation_messages_def Let_def split: option.splits prod.splits sum.splits)

lemma redis_exists_broken:
  "\<not> redis_available r \<or> (\<forall>k. client_exists r k = Inl ()) \<Longrightarrow> \<not> redis_exists r key"
  by (auto simp: redis_exists_def)

lemma redis_publish_broken:
  "\<not> redis_available r \<or> (\<forall>ch p. client_publish r ch p = Inl ()) \<Longrightarrow> redis_publish r channel p = []"
  by (auto simp: redis_publish_def)

text \<open>
  Claim C9. The store and the answer of a send are the same for every two brokers, whatever
  they do, so a broker that is unavailable or raises changes neither; a send that passes
  validation and names an existing recipient answers with the identifier and creation time
  of a message that is stored afterwards. The store and the message list of the
  conversation view are the same for every two brokers as well, and with a broker that is
  unavailable or whose existence check raises, the view of an existing user on a store that
  satisfies the constraints of the database succeeds and reports the other user as offline.
\<close>

theorem broker_failures_swallowed:
  "fst (send_message_api r s a data now now') = fst (send_message_api r' s a data now now') \<and>
   snd (snd (send_message_api r s a data now now')) = snd (snd (send_message_api r' s a data now now')) \<and>
   (\<forall>rid. body_recipient_id data = Some rid \<and> rid \<noteq> 0 \<and> strip (body_content data) \<noteq> [] \<and>
          get_user s rid \<noteq> None \<longrightarrow>
      (\<exists>m \<in> set (messages (fst (send_message_api r s a data now now'))).
          snd (snd (send_message_api r s a data now now')) =
            Inr \<lparr>message_id = msg_id m, timestamp = created_at m\<rparr>)) \<and>
   fst (get_conversation_messages r s v uid) = fst (get_conversation_messages r' s v uid) \<and>
   map_sum id messages_data (snd (get_conversation_messages r s v uid)) =
     map_sum id messages_data (snd (get_conversation_messages r' s v uid)) \<and>
   (wf_store s \<and> get_user s uid \<noteq> None \<and>
      (\<not> redis_available r \<or> (\<forall>k. client_exists r k = Inl ())) \<longrightarrow>
      (\<exists>c. snd (get_conversation_messages r s v uid) = Inr c \<and> \<not> us_is_online (other_user c)))"
proof -
  have persisted: "\<exists>m \<in> set (messages (fst (send_message_api r s a data now now'))).
          snd (snd (send_message_api r s a data now now')) =
            Inr \<lparr>message_id = msg_id m, timestamp = created_at m\<rparr>"
    if "body_recipient_id data = Some rid \<and> rid \<noteq> 0 \<and> strip (body_content data) \<noteq> [] \<and>
          get_user s rid \<noteq> None" for rid
    using that send_valid_Inr [of data rid s r a now now'] by blast
  have offline: "\<exists>c. snd (get_conversation_messages r s v uid) = Inr c \<and> \<not> us_is_online (other_user c)"
    if h: "wf_store s \<and> get_user s uid \<noteq> None \<and>
      (\<not> redis_available r \<or> (\<forall>k. client_exists r k = Inl ()))"
  proof -
    from h have fk: "list_all (\<lambda>m. get_user s (sender_id m) \<noteq> None) (messages s)"
      by (simp add: wf_store_def)
    from h obtain other where "get_user s uid = Some other" by auto
    from conversation_succeeds [OF this fk, of r v] obtain s' c
      where res: "get_conversation_messages r s v uid = (s', Inr c)" by blast
    from conversation_result [OF res]
    have "us_is_online (other_user c) = redis_exists r (''user_online_'' @ str_int uid)" by blast
    with h redis_exists_broken [of r] have "\<not> us_is_online (other_user c)" by blast
    with res show ?thesis by simp
  qed
  from persisted offline show ?thesis
    using send_broker_independent [of r s a data now now' r']
      conversation_broker_independent [of r s v uid r']
    by blast
qed

text \<open>
  The statement of C9 with a broker whose every call raises (the send to the empty store
  stores the message and nothing is published, where a working broker accepts both
  publications) and with no broker at all (the conversation reports the other user as
  offline, where a working broker reports them as online).
\<close>

theorem broker_failures_swallowed_witness:
  "body_recipient_id hi_body = Some 2 \<and> (2::int) \<noteq> 0 \<and> strip (body_content hi_body) \<noteq> [] \<and>
   get_user empty_store 2 \<noteq> None \<and>
   fst (snd (send_message_api raising_redis empty_store ana hi_body 0 0)) = [] \<and>
   length (fst (snd (send_message_api working_redis empty_store ana hi_body 0 0))) = 2 \<and>
   fst (send_message_api raising_redis empty_store ana hi_body 0 0) = hi_store \<and>
   snd (snd (send_message_api raising_redis empty_store ana hi_body 0 0)) =
     Inr \<lparr>message_id = 1, timestamp = 0\<rparr> \<and>
   wf_store hi_store \<and> get_user hi_store 2 \<noteq> None \<and> \<not> redis_available no_redis \<and>
   (\<exists>c. snd (get_conversation_messages no_redis hi_store ana 2) = Inr c \<and>
        \<not> us_is_online (other_user c)) \<and>
   us_is_online (other_user (projr (snd (get_conversation_messages working_redis hi_store ana 2))))"
proof -
  have u0: "get_user empty_store 2 \<noteq> None"
    by (simp add: empty_store_def get_user_def ana_def jdoe_def)
  have u1: "get_user hi_store 2 \<noteq> None" by (simp add: get_user_hi_store)
  have ne: "strip (body_content hi_body) \<noteq> []" by (simp add: hi_body_facts)
  have off: "\<not> redis_available no_redis" by (simp add: no_redis_def)
  have pub: "fst (snd (send_message_api raising_redis empty_store ana hi_body 0 0)) = []"
    "length (fst (snd (send_message_api working_redis empty_store ana hi_body 0 0))) = 2"
    by (simp_all add: send_message_api_def hi_body_def strip_def is_space_def empty_store_def
        get_user_def ana_def jdoe_def create_message_def publish_message_def redis_publish_def
        raising_redis_def working_redis_def Let_def)
  have st: "fst (send_message_api no_redis empty_store ana hi_body 0 0) = hi_store"
    "snd (snd (send_message_api no_redis empty_store ana hi_body 0 0)) = Inr \<lparr>message_id = 1, timestamp = 0\<rparr>"
    by (simp_all add: send_message_api_def hi_body_def strip_def is_space_def empty_store_def
        hi_store_def hi_message_def get_user_def ana_def jdoe_def create_message_def
        recipients_add_def Let_def dedup_filter_def)
  from broker_failures_swallowed [of raising_redis empty_store ana hi_body 0 0 no_redis ana 2] st
  have same: "fst (send_message_api raising_redis empty_store ana hi_body 0 0) = hi_store"
    "snd (snd (send_message_api raising_redis empty_store ana hi_body 0 0)) =
     Inr \<lparr>message_id = 1, timestamp = 0\<rparr>"
    by simp_all
  from broker_failures_swallowed [of no_redis hi_store ana hi_body 0 0 no_redis ana 2]
    wf_hi_store u1 off
  have conv: "\<exists>c. snd (get_conversation_messages no_redis hi_store ana 2) = Inr c \<and>
        \<not> us_is_online (other_user c)"
    by blast
  have on: "us_is_online (other_user (projr (snd (get_conversation_messages working_redis hi_store ana 2))))"
    by (simp add: get_conversation_messages_def hi_store_def hi_message_def get_user_def ana_def
        jdoe_def conversation_qs_def order_by_created_at_def conv_filter_def Let_def
        redis_exists_def working_redis_def)
  from hi_body_facts(1) ne u0 pub same wf_hi_store u1 off conv on show ?thesis by simp
qed

lemma initials_two:
  "first_name u \<noteq> [] \<Longrightarrow> last_name u \<noteq> [] \<Longrightarrow>
   initials u = upper [hd (first_name u), hd (last_name u)]"
  by (cases "first_name u"; cases "last_name u") (simp_all add: initials_def)

lemma publish_initials:
  "cp \<in> set (publish_message r msg sender rcp) \<Longrightarrow> p_initials (snd cp) = initials sender"
  by (auto simp: publish_message_def redis_publish_def Let_def split: if_splits sum.splits)

lemma get_user_find: "get_user s uid = Some u \<Longrightarrow> get_user s (user_id u) = Some u"
  using get_user_id by fastforce

text \<open>
  Claim C7. The initials of a user are the upper-cased first letters of the first and the
  last name when both names are non-empty, and the upper-cased first two characters of the
  username otherwise. Every fan-out payload carries the initials of the sender; the
  conversation view carries the initials of the other user and, for every listed message,
  those of its sender; the start of a conversation carries the initials of the recipient.
  The user named Ana Lee has the initials \<open>AL\<close>; the user without names whose username is
  \<open>jdoe\<close> has the initials \<open>JD\<close>.
\<close>

theorem initials_rule:
  "(first_name u \<noteq> [] \<and> last_name u \<noteq> [] \<longrightarrow>
      initials u = upper [hd (first_name u), hd (last_name u)]) \<and>
   (first_name u = [] \<or> last_name u = [] \<longrightarrow> initials u = upper (take 2 (username u))) \<and>
   (\<forall>cp \<in> set (publish_message r msg sender rcp). p_initials (snd cp) = initials sender) \<and>
   (\<forall>s' c. get_conversation_messages r s v uid = (s', Inr c) \<longrightarrow>
      (\<exists>other. get_user s uid = Some other \<and> us_initials (other_user c) = initials other) \<and>
      (\<forall>e \<in> set (messages_data c).
          \<exists>x. get_user s (mv_sender_id e) = Some x \<and> mv_initials e = initials x)) \<and>
   (\<forall>cs. start_conversation_api r s v rid = Inr cs \<longrightarrow>
      (\<exists>x. get_user s (cs_user_id cs) = Some x \<and> cs_initials cs = initials x)) \<and>
   initials ana = ''AL'' \<and> initials jdoe = ''JD''"
proof -
  have conv: "(\<exists>other. get_user s uid = Some other \<and> us_initials (other_user c) = initials other) \<and>
      (\<forall>e \<in> set (messages_data c).
          \<exists>x. get_user s (mv_sender_id e) = Some x \<and> mv_initials e = initials x)"
    if res: "get_conversation_messages r s v uid = (s', Inr c)" for s' c
  proof -
    let ?qs = "conversation_qs s (user_id v) uid"
    from conversation_result [OF res] obtain other where
      o: "get_user s uid = Some other" "us_initials (other_user c) = initials other"
      and fk: "list_all (\<lambda>m. get_user s (sender_id m) \<noteq> None) ?qs"
      and d: "messages_data c = map (entry_for s (user_id v)) ?qs"
      by blast
    have "\<exists>x. get_user s (mv_sender_id e) = Some x \<and> mv_initials e = initials x"
      if "e \<in> set (messages_data c)" for e
    proof -
      from that d obtain m where m: "m \<in> set ?qs" and e: "e = entry_for s (user_id v) m" by auto
      from fk m obtain x where x: "get_user s (sender_id m) = Some x"
        by (auto simp: list_all_iff)
      from get_user_find [OF x] x e show ?thesis
        by (simp add: entry_for_def message_entry_def)
    qed
    with o show ?thesis by blast
  qed
  have start: "\<exists>x. get_user s (cs_user_id cs) = Some x \<and> cs_initials cs = initials x"
    if "start_conversation_api r s v rid = Inr cs" for cs
    using that get_user_find
    by (auto simp: start_conversation_api_def split: option.splits)
  have ex: "initials ana = ''AL''" "initials jdoe = ''JD''"
    by (simp_all add: initials_def ana_def jdoe_def upper_def upper_char_def)
  have fallback: "first_name u = [] \<or> last_name u = [] \<longrightarrow> initials u = upper (take 2 (username u))"
    by (auto simp: initials_def)
  from initials_two [of u] fallback publish_initials [of _ r msg sender rcp] conv start ex
  show ?thesis by blast
qed

text \<open>The statement of C7 on the two example users and the short exchange.\<close>

theorem initials_rule_witness:
  "first_name ana \<noteq> [] \<and> last_name ana \<noteq> [] \<and> initials ana = upper ''AL'' \<and>
   first_name jdoe = [] \<and> initials jdoe = upper ''jd'' \<and>
   map p_initials (map snd (publish_message working_redis hi_message ana jdoe)) = [''AL'', ''AL''] \<and>
   us_initials (other_user (projr (snd (get_conversation_messages no_redis chat_store jdoe 1)))) = ''AL'' \<and>
   map mv_initials (messages_data (projr (snd (get_conversation_messages no_redis chat_store jdoe 1)))) =
     [''AL'', ''JD''] \<and>
   map_sum id cs_initials (start_conversation_api no_redis chat_store ana (Some 2)) = Inr ''JD''"
proof -
  note T1 = initials_rule [where u = ana and r = working_redis and msg = hi_message and sender = ana
      and rcp = jdoe and s = chat_store and v = jdoe and uid = 1 and rid = "Some 2"]
  note T2 = initials_rule [where u = jdoe and r = no_redis and msg = hi_message and sender = ana
      and rcp = jdoe and s = chat_store and v = jdoe and uid = 1 and rid = "Some 2"]
  have n: "first_name ana \<noteq> []" "last_name ana \<noteq> []" "first_name jdoe = []"
    by (simp_all add: ana_def jdoe_def)
  from T1 n have a: "initials ana = upper ''AL''" by (simp add: ana_def)
  from T2 n have j: "initials jdoe = upper ''jd''" by (simp add: jdoe_def)
  from T1 have al: "initials ana = ''AL''" and jd: "initials jdoe = ''JD''" by simp_all
  have len: "length (publish_message working_redis hi_message ana jdoe) = 2"
    by (simp add: publish_message_def redis_publish_def working_redis_def Let_def)
  from T1 have "\<forall>cp \<in> set (publish_message working_redis hi_message ana jdoe).
      p_initials (snd cp) = ''AL''" by simp
  then have "map p_initials (map snd (publish_message working_redis hi_message ana jdoe)) =
      replicate (length (publish_message working_redis hi_message ana jdoe)) ''AL''"
    by (simp add: map_replicate_const [symmetric] del: replicate.simps)
  with len have pub: "map p_initials (map snd (publish_message working_redis hi_message ana jdoe)) =
      [''AL'', ''AL'']"
    by (simp add: numeral_2_eq_2)
  have g: "get_user chat_store 1 = Some ana" "get_user chat_store 2 = Some jdoe"
    by (simp_all add: chat_store_def get_user_def ana_def jdoe_def)
  from T2 chat_conversation g
  have ou: "us_initials (other_user (projr (snd (get_conversation_messages no_redis chat_store jdoe 1)))) = ''AL''"
    by (metis al option.inject)
  have ms: "map mv_initials (messages_data (projr (snd (get_conversation_messages no_redis chat_store jdoe 1)))) =
     [''AL'', ''JD'']"
    by (simp add: chat_store_def hi_message_def get_user_def
      get_conversation_messages_def conversation_qs_def order_by_created_at_def conv_filter_def
      save_is_read_def message_entry_def Let_def al jd)
      (simp add: ana_def jdoe_def al [unfolded ana_def] jd [unfolded jdoe_def])
  have sc: "map_sum id cs_initials (start_conversation_api no_redis chat_store ana (Some 2)) = Inr ''JD''"
    by (simp add: start_conversation_api_def g jd)
  from n a j pub ou ms sc show ?thesis by simp
qed

end
